theory Spec2Isabelle
  imports Complex_Main
begin

section \<open>JavaScript values\<close>

text \<open>
  \<^verbatim>\<open>api-schema.js\<close> works on the values that \<^verbatim>\<open>JSON.parse\<close> returns and on the
  object literals it builds itself. A value is \<^verbatim>\<open>undefined\<close>, \<^verbatim>\<open>null\<close>, a boolean, a
  number, a string, or an object. An object carries its own enumerable properties in the
  order \<^verbatim>\<open>Object.keys\<close> lists them; an array is an object of kind \<open>Array\<close> whose
  properties are its indices. Strings are byte strings (ASCII).
\<close>

datatype okind = Plain | Array

datatype jsval =
    JUndefined
  | JNull
  | JBool bool
  | JNum rat
  | JStr string
  | JObj okind "(string \<times> jsval) list"

datatype error =
    TransportError string
  | Rejected jsval
  | SyntaxError
  | TypeError
  | RangeError
  | FileSystemError string

text \<open>The value of a condition: \<^verbatim>\<open>if(v)\<close>, \<^verbatim>\<open>!v\<close>.\<close>

fun truthy :: "jsval \<Rightarrow> bool" where
  "truthy JUndefined = False"
| "truthy JNull = False"
| "truthy (JBool b) = b"
| "truthy (JNum n) = (n \<noteq> 0)"
| "truthy (JStr s) = (s \<noteq> [])"
| "truthy (JObj k ps) = True"

subsection \<open>Property keys\<close>

text \<open>
  \<^verbatim>\<open>Object.keys\<close> lists the array indices of an object first, in ascending numeric
  order, and the other keys after them in the order of their creation. An array index is
  the canonical decimal numeral of a number below \<open>2^32 - 1\<close>.
\<close>

definition is_digit :: "char \<Rightarrow> bool" where
  "is_digit c = (c \<in> set ''0123456789'')"

definition digit_value :: "char \<Rightarrow> nat" where
  "digit_value c = (of_char c - 48)"

definition dec_value :: "string \<Rightarrow> nat" where
  "dec_value s = foldl (\<lambda>n c. 10 * n + digit_value c) 0 s"

definition is_index :: "string \<Rightarrow> bool" where
  "is_index s =
     (s \<noteq> [] \<and> list_all is_digit s \<and> (s = ''0'' \<or> hd s \<noteq> CHR ''0'')
      \<and> dec_value s < 4294967295)"

definition digit_char :: "nat \<Rightarrow> char" where
  "digit_char n = ''0123456789'' ! (n mod 10)"

fun dec_string :: "nat \<Rightarrow> string" where
  "dec_string n =
     (if n < 10 then [digit_char n] else dec_string (n div 10) @ [digit_char n])"

declare dec_string.simps [simp del]

text \<open>A new index key goes before the first key that is not a smaller index.\<close>

fun insert_index :: "string \<Rightarrow> jsval \<Rightarrow> (string \<times> jsval) list \<Rightarrow> (string \<times> jsval) list" where
  "insert_index k v [] = [(k, v)]"
| "insert_index k v (p # ps) =
     (if is_index (fst p) \<and> dec_value (fst p) < dec_value k
      then p # insert_index k v ps
      else (k, v) # p # ps)"

text \<open>Replacing the value of a key the object has keeps the key's place.\<close>

fun replace_value :: "string \<Rightarrow> jsval \<Rightarrow> (string \<times> jsval) list \<Rightarrow> (string \<times> jsval) list" where
  "replace_value k v [] = []"
| "replace_value k v (p # ps) =
     (if fst p = k then (k, v) # ps else p # replace_value k v ps)"

definition obj_put :: "(string \<times> jsval) list \<Rightarrow> string \<Rightarrow> jsval \<Rightarrow> (string \<times> jsval) list" where
  "obj_put ps k v =
     (if k \<in> set (map fst ps) then replace_value k v ps
      else if is_index k then insert_index k v ps
      else ps @ [(k, v)])"

definition obj_delete :: "(string \<times> jsval) list \<Rightarrow> string \<Rightarrow> (string \<times> jsval) list" where
  "obj_delete ps k = filter (\<lambda>p. fst p \<noteq> k) ps"

subsection \<open>Reading, listing and writing properties\<close>

text \<open>
  \<open>js_get v k\<close> is the read \<^verbatim>\<open>v[k]\<close>: a TypeError on \<^verbatim>\<open>undefined\<close> and \<^verbatim>\<open>null\<close>,
  \<^verbatim>\<open>undefined\<close> for a property the value does not have. The program reads the names
  \<^verbatim>\<open>status\<close>, \<^verbatim>\<open>basePath\<close>, \<^verbatim>\<open>paths\<close>, \<^verbatim>\<open>endpointMap\<close>, \<^verbatim>\<open>definitions\<close>, \<^verbatim>\<open>method\<close>,
  \<^verbatim>\<open>url\<close>, \<^verbatim>\<open>id\<close>, \<^verbatim>\<open>operationId\<close>, \<^verbatim>\<open>responses\<close>, \<^verbatim>\<open>parameters\<close>, \<^verbatim>\<open>examples\<close>,
  \<^verbatim>\<open>application/json\<close> and keys that \<^verbatim>\<open>Object.keys\<close> returned: none of them is
  inherited from a prototype, so only own properties are modelled.
\<close>

fun js_get :: "jsval \<Rightarrow> string \<Rightarrow> error + jsval" where
  "js_get JUndefined k = Inl TypeError"
| "js_get JNull k = Inl TypeError"
| "js_get (JBool b) k = Inr JUndefined"
| "js_get (JNum n) k = Inr JUndefined"
| "js_get (JStr s) k =
     Inr (if is_index k \<and> dec_value k < length s then JStr [s ! dec_value k]
          else JUndefined)"
| "js_get (JObj kd ps) k =
     Inr (case map_of ps k of None \<Rightarrow> JUndefined | Some v \<Rightarrow> v)"

text \<open>\<^verbatim>\<open>Object.keys(v)\<close>.\<close>

fun js_keys :: "jsval \<Rightarrow> error + string list" where
  "js_keys JUndefined = Inl TypeError"
| "js_keys JNull = Inl TypeError"
| "js_keys (JBool b) = Inr []"
| "js_keys (JNum n) = Inr []"
| "js_keys (JStr s) = Inr (map dec_string [0..<length s])"
| "js_keys (JObj kd ps) = Inr (map fst ps)"

text \<open>
  The assignment \<^verbatim>\<open>v[k] = x\<close> in strict mode (a class body is strict code): a
  TypeError on \<^verbatim>\<open>undefined\<close>, \<^verbatim>\<open>null\<close> and on every primitive value. On an object it
  creates or replaces the own property, with two exceptions: \<^verbatim>\<open>length\<close> of an array
  accepts a valid length only (the program assigns objects and strings: a RangeError),
  and \<^verbatim>\<open>__proto__\<close>, unless it is an own property already, sets the prototype and leaves
  the own properties as they are.
\<close>

fun js_set :: "jsval \<Rightarrow> string \<Rightarrow> jsval \<Rightarrow> error + jsval" where
  "js_set (JObj kd ps) k x =
     (if kd = Array \<and> k = ''length'' then Inl RangeError
      else if k = ''__proto__'' \<and> k \<notin> set (map fst ps) then Inr (JObj kd ps)
      else Inr (JObj kd (obj_put ps k x)))"
| "js_set v k x = Inl TypeError"

text \<open>
  The program mutates objects in place, and \<^verbatim>\<open>schemaPaths\<close>, \<^verbatim>\<open>requestPath\<close> and
  \<^verbatim>\<open>requestData\<close> are references into the schema document. \<open>alias_put v k x\<close> is the
  holder \<open>v\<close> seen after the object stored under its key \<open>k\<close> was mutated to \<open>x\<close>; a
  primitive holds no reference and stays as it is.
\<close>

fun alias_put :: "jsval \<Rightarrow> string \<Rightarrow> jsval \<Rightarrow> jsval" where
  "alias_put (JObj kd ps) k x = JObj kd (replace_value k x ps)"
| "alias_put v k x = v"

fun js_delete :: "jsval \<Rightarrow> string \<Rightarrow> jsval" where
  "js_delete (JObj kd ps) k = JObj kd (obj_delete ps k)"
| "js_delete v k = v"

subsection \<open>Strings\<close>

fun starts_with :: "string \<Rightarrow> string \<Rightarrow> bool" where
  "starts_with s [] = True"
| "starts_with [] (p # ps) = False"
| "starts_with (c # cs) (p # ps) = (c = p \<and> starts_with cs ps)"

text \<open>\<open>contains s sub\<close>: the tests \<^verbatim>\<open>/ui/.test(s)\<close> and \<^verbatim>\<open>/\{\}/.test(s)\<close>, whose patterns
  are the literal texts \<^verbatim>\<open>ui\<close> and \<^verbatim>\<open>{}\<close>.\<close>

fun contains :: "string \<Rightarrow> string \<Rightarrow> bool" where
  "contains [] sub = (sub = [])"
| "contains (c # cs) sub = (starts_with (c # cs) sub \<or> contains cs sub)"

text \<open>\<^verbatim>\<open>s.replace(pat, rep)\<close> with a string pattern replaces the first occurrence only
  (the replacement texts of the program hold no \<^verbatim>\<open>$\<close>).\<close>

fun replace_first :: "string \<Rightarrow> string \<Rightarrow> string \<Rightarrow> string" where
  "replace_first pat rep [] = (if pat = [] then rep else [])"
| "replace_first pat rep (c # cs) =
     (if starts_with (c # cs) pat then rep @ drop (length pat) (c # cs)
      else c # replace_first pat rep cs)"

definition lower_char :: "char \<Rightarrow> char" where
  "lower_char c =
     (case map_of (zip ''ABCDEFGHIJKLMNOPQRSTUVWXYZ'' ''abcdefghijklmnopqrstuvwxyz'') c of
        None \<Rightarrow> c
      | Some d \<Rightarrow> d)"

text \<open>The method calls \<^verbatim>\<open>v.toLowerCase()\<close> and \<^verbatim>\<open>v.replace(pat, rep)\<close>: a TypeError
  unless \<open>v\<close> is a string (no other value has a callable property of that name).\<close>

fun js_toLowerCase :: "jsval \<Rightarrow> error + string" where
  "js_toLowerCase (JStr s) = Inr (map lower_char s)"
| "js_toLowerCase v = Inl TypeError"

fun js_replace :: "jsval \<Rightarrow> string \<Rightarrow> string \<Rightarrow> error + string" where
  "js_replace (JStr s) pat rep = Inr (replace_first pat rep s)"
| "js_replace v pat rep = Inl TypeError"

section \<open>The environment of a run\<close>

text \<open>
  What the module takes from outside the repository's sources under study: the values
  of \<^verbatim>\<open>config\<close>, the list read from \<^verbatim>\<open>webMIMETypes.json\<close>, the functions of Node's
  \<^verbatim>\<open>path\<close> module, \<^verbatim>\<open>JSON.parse\<close> (\<open>None\<close> for a SyntaxError) and \<^verbatim>\<open>JSON.stringify\<close>,
  the replacement of \<^verbatim>\<open>/https?:\/\/localhost:[0-9]+?\//g\<close> by \<^verbatim>\<open>config.endpoints.local\<close>,
  the string conversion of numbers and arrays, the answer of the network to the n-th
  request of the run, and whether the file system accepts a write to a path.
\<close>

datatype response = Response nat "(string \<times> string) list"

datatype transport = TransportFailure string | TransportSuccess response string

record env =
  dns :: string
  apiPath :: string
  webMIMETypes :: "string list"
  path_join :: "string \<Rightarrow> string \<Rightarrow> string"
  path_relative :: "string \<Rightarrow> string \<Rightarrow> string"
  JSON_parse :: "string \<Rightarrow> jsval option"
  JSON_stringify :: "jsval \<Rightarrow> string"
  replace_localhost :: "string \<Rightarrow> string"
  ToString_other :: "jsval \<Rightarrow> error + string"
  network :: "nat \<Rightarrow> string \<Rightarrow> transport"
  io_ok :: "string \<Rightarrow> bool"

text \<open>The files written (with the value handed to \<^verbatim>\<open>outputJSON\<close>), the directories
  ensured, and the URLs requested so far, oldest first.\<close>

record world =
  files :: "string \<Rightarrow> jsval option"
  dirs :: "string set"
  requested :: "string list"

definition responsesPath :: "env \<Rightarrow> string" where
  "responsesPath env = path_join env (apiPath env) ''responses''"

definition definitionsPath :: "env \<Rightarrow> string" where
  "definitionsPath env = path_join env (apiPath env) ''definitions''"

definition schemaPath :: "env \<Rightarrow> string" where
  "schemaPath env = path_join env (apiPath env) ''schema.json''"

definition schemaURL :: "env \<Rightarrow> string" where
  "schemaURL env = dns env @ ''/ccstore/v1/metadata-catalog''"

definition registryEndpoint :: "env \<Rightarrow> string" where
  "registryEndpoint env = dns env @ ''/ccstoreui/v1/registry''"

text \<open>The string a template literal or a \<^verbatim>\<open>RegExp.test\<close> makes of a value. A plain
  object gives \<^verbatim>\<open>[object Object]\<close> through the inherited \<^verbatim>\<open>toString\<close>; with an own
  property \<^verbatim>\<open>toString\<close>, which in a parsed document is not callable, the conversion
  throws a TypeError. Numbers and arrays are converted by the environment.\<close>

definition js_ToString :: "env \<Rightarrow> jsval \<Rightarrow> error + string" where
  "js_ToString env v =
     (case v of
        JStr s \<Rightarrow> Inr s
      | JUndefined \<Rightarrow> Inr ''undefined''
      | JNull \<Rightarrow> Inr ''null''
      | JBool b \<Rightarrow> Inr (if b then ''true'' else ''false'')
      | JObj Plain ps \<Rightarrow>
          (if ''toString'' \<in> set (map fst ps) then Inl TypeError
           else Inr ''[object Object]'')
      | _ \<Rightarrow> ToString_other env v)"

subsection \<open>Results and effects\<close>

text \<open>A computation either throws (\<open>Inl\<close>) or returns (\<open>Inr\<close>), and leaves a world
  behind in both cases: a failed run keeps the files it wrote.\<close>

type_synonym 'a io = "world \<Rightarrow> (error + 'a) \<times> world"

definition bindE :: "error + 'a \<Rightarrow> ('a \<Rightarrow> error + 'b) \<Rightarrow> error + 'b" where
  "bindE r f = (case r of Inl e \<Rightarrow> Inl e | Inr x \<Rightarrow> f x)"

definition bnd :: "'a io \<Rightarrow> ('a \<Rightarrow> 'b io) \<Rightarrow> 'b io" where
  "bnd m f w = (case m w of (Inl e, w') \<Rightarrow> (Inl e, w') | (Inr x, w') \<Rightarrow> f x w')"

definition ret :: "'a \<Rightarrow> 'a io" where
  "ret x w = (Inr x, w)"

definition throw :: "error \<Rightarrow> 'a io" where
  "throw e w = (Inl e, w)"

definition lift :: "error + 'a \<Rightarrow> 'a io" where
  "lift r w = (r, w)"

text \<open>\<^verbatim>\<open>fs.ensureDir\<close>, \<^verbatim>\<open>fs.ensureDirSync\<close> and \<^verbatim>\<open>fs.outputJSON\<close>.\<close>

definition ensureDir :: "env \<Rightarrow> string \<Rightarrow> unit io" where
  "ensureDir env p w =
     (if io_ok env p then (Inr (), w\<lparr>dirs := insert p (dirs w)\<rparr>)
      else (Inl (FileSystemError p), w))"

definition outputJSON :: "env \<Rightarrow> string \<Rightarrow> jsval \<Rightarrow> unit io" where
  "outputJSON env p v w =
     (if io_ok env p then (Inr (), w\<lparr>files := (files w)(p \<mapsto> v)\<rparr>)
      else (Inl (FileSystemError p), w))"

section \<open>The remote fetcher\<close>

text \<open>
  \<^verbatim>\<open>makeRequest(url)\<close>, lines 23 to 48: the promise rejects with the transport error,
  with the error thrown by \<^verbatim>\<open>JSON.parse(body)\<close> or by reading \<^verbatim>\<open>parsedBody.status\<close>,
  or with the parsed body when its \<^verbatim>\<open>status\<close> is the string \<^verbatim>\<open>404\<close>; it resolves with
  the response and the body otherwise.
\<close>

definition makeRequest :: "env \<Rightarrow> string \<Rightarrow> (response \<times> string) io" where
  "makeRequest env url w =
     (let w' = w\<lparr>requested := requested w @ [url]\<rparr> in
      case network env (length (requested w)) url of
        TransportFailure e \<Rightarrow> (Inl (TransportError e), w')
      | TransportSuccess resp body \<Rightarrow>
          (case JSON_parse env body of
             None \<Rightarrow> (Inl SyntaxError, w')
           | Some parsedBody \<Rightarrow>
               (case js_get parsedBody ''status'' of
                  Inl e \<Rightarrow> (Inl e, w')
                | Inr st \<Rightarrow>
                    if st = JStr ''404'' then (Inl (Rejected parsedBody), w')
                    else (Inr (resp, body), w'))))"

section \<open>The pipeline\<close>

subsection \<open>Base path, lines 65 to 67\<close>

definition normalizeBasePath :: "env \<Rightarrow> jsval \<Rightarrow> error + jsval" where
  "normalizeBasePath env schemaJSON =
     bindE (js_get schemaJSON ''basePath'') (\<lambda>basePath.
     bindE (js_ToString env basePath) (\<lambda>basePathText.
       if \<not> contains basePathText ''ui'' then
         bindE (js_replace basePath ''ccadmin'' ''ccadminui'') (\<lambda>s.
           js_set schemaJSON ''basePath'' (JStr (replace_first ''ccstore'' ''ccstoreui'' s)))
       else Inr schemaJSON))"

subsection \<open>The operation ids of the schema, lines 69 to 75\<close>

fun methodOperationIds :: "jsval \<Rightarrow> string list \<Rightarrow> jsval list \<Rightarrow> error + jsval list" where
  "methodOperationIds requestPath [] operationsIds = Inr operationsIds"
| "methodOperationIds requestPath (method # methods) operationsIds =
     bindE (js_get requestPath method) (\<lambda>requestData.
     bindE (js_get requestData ''operationId'') (\<lambda>operationId.
       methodOperationIds requestPath methods (operationsIds @ [operationId])))"

fun pathOperationIds :: "jsval \<Rightarrow> string list \<Rightarrow> jsval list \<Rightarrow> error + jsval list" where
  "pathOperationIds schemaPaths [] operationsIds = Inr operationsIds"
| "pathOperationIds schemaPaths (requestPathKey # keys) operationsIds =
     bindE (js_get schemaPaths requestPathKey) (\<lambda>requestPath.
     bindE (js_keys requestPath) (\<lambda>methods.
     bindE (methodOperationIds requestPath methods operationsIds) (\<lambda>operationsIds'.
       pathOperationIds schemaPaths keys operationsIds')))"

definition collectOperationIds :: "jsval \<Rightarrow> error + jsval list" where
  "collectOperationIds schemaPaths =
     bindE (js_keys schemaPaths) (\<lambda>keys. pathOperationIds schemaPaths keys [])"

subsection \<open>Missing endpoints, lines 77 to 108\<close>

text \<open>The sample of lines 83 to 91: the empty object unless the method is \<^verbatim>\<open>get\<close>, the
  URL has no \<^verbatim>\<open>{}\<close>, the request resolves and its body parses; the empty
  \<^verbatim>\<open>catch\<close> swallows every error, that of the string conversion of the URL included.\<close>

definition fetchSample :: "env \<Rightarrow> string \<Rightarrow> jsval \<Rightarrow> jsval io" where
  "fetchSample env method url w =
     (if method = ''get'' then
        (case js_ToString env url of
           Inl e \<Rightarrow> (Inr (JObj Plain []), w)
         | Inr urlText \<Rightarrow>
             if \<not> contains urlText ''{}'' then
               (case makeRequest env (dns env @ urlText) w of
                  (Inl e, w') \<Rightarrow> (Inr (JObj Plain []), w')
                | (Inr (resp, body), w') \<Rightarrow>
                    (case JSON_parse env body of
                       None \<Rightarrow> (Inr (JObj Plain []), w')
                     | Some sampleResponse \<Rightarrow> (Inr sampleResponse, w')))
             else (Inr (JObj Plain []), w))
      else (Inr (JObj Plain []), w))"

text \<open>The object literal of lines 93 to 106.\<close>

definition synthesized :: "string \<Rightarrow> jsval \<Rightarrow> jsval \<Rightarrow> jsval" where
  "synthesized method ident sampleResponse =
     JObj Plain [(method, JObj Plain
       [(''summary'', ident),
        (''operationId'', ident),
        (''produces'', JObj Array [(''0'', JStr ''application/json'')]),
        (''responses'', JObj Plain
          [(''200'', JObj Plain
            [(''examples'', JObj Plain [(''application/json'', sampleResponse)])])])])]"

definition mergeEntry :: "env \<Rightarrow> jsval \<Rightarrow> jsval list \<Rightarrow> jsval \<Rightarrow> string \<Rightarrow> jsval io" where
  "mergeEntry env endpointMap operationsIds schemaPaths endpointMapKey =
     bnd (lift (js_get endpointMap endpointMapKey)) (\<lambda>endpointMapData.
       if JStr endpointMapKey \<in> set operationsIds then ret schemaPaths
       else
         bnd (lift (bindE (js_get endpointMapData ''method'') js_toLowerCase)) (\<lambda>method.
         bnd (lift (js_get endpointMapData ''url'')) (\<lambda>url.
         bnd (fetchSample env method url) (\<lambda>sampleResponse.
         bnd (lift (js_replace url ''/ccstoreui/v1'' [])) (\<lambda>key.
         bnd (lift (js_get endpointMapData ''id'')) (\<lambda>ident.
           lift (js_set schemaPaths key (synthesized method ident sampleResponse))))))))"

fun mergeEntries :: "env \<Rightarrow> jsval \<Rightarrow> jsval list \<Rightarrow> string list \<Rightarrow> jsval \<Rightarrow> jsval io" where
  "mergeEntries env endpointMap operationsIds [] schemaPaths = ret schemaPaths"
| "mergeEntries env endpointMap operationsIds (endpointMapKey # keys) schemaPaths =
     bnd (mergeEntry env endpointMap operationsIds schemaPaths endpointMapKey)
       (\<lambda>schemaPaths'. mergeEntries env endpointMap operationsIds keys schemaPaths')"

text \<open>The merge stage, lines 69 to 108: the ids are collected once, before the loop.\<close>

definition merge :: "env \<Rightarrow> jsval \<Rightarrow> jsval \<Rightarrow> jsval io" where
  "merge env schemaPaths endpointMap =
     bnd (lift (collectOperationIds schemaPaths)) (\<lambda>operationsIds.
     bnd (lift (js_keys endpointMap)) (\<lambda>keys.
       mergeEntries env endpointMap operationsIds keys schemaPaths))"

subsection \<open>Fixtures, lines 110 to 186\<close>

text \<open>Lines 155 to 163. When a declared type is in the list, the list of declared
  types is kept as it is and is not empty, so its first element exists.\<close>

definition selectContentType :: "string list \<Rightarrow> string list \<Rightarrow> string" where
  "selectContentType mimeTypes contentTypeList =
     (let foundValidMIMEType = list_ex (\<lambda>mimeType. mimeType \<in> set mimeTypes) contentTypeList;
          contentTypeList' =
            (if \<not> foundValidMIMEType then [''application/json''] else contentTypeList)
      in case contentTypeList' of [] \<Rightarrow> ''undefined'' | contentType # rest \<Rightarrow> contentType)"

text \<open>The descriptor of lines 132 to 145, with the headers it has when it is written.\<close>

definition descriptor :: "jsval \<Rightarrow> string \<Rightarrow> string \<Rightarrow> string \<Rightarrow> jsval \<Rightarrow> jsval" where
  "descriptor parameters method dataPath statusCode headers =
     JObj Plain
       [(''allowedParameters'', parameters),
        (''request'', JObj Plain
          [(''queryParameters'', JObj Plain []),
           (''method'', JStr method),
           (''headers'', JObj Plain []),
           (''body'', JObj Plain [])]),
        (''response'', JObj Plain
          [(''dataPath'', JStr dataPath),
           (''statusCode'', JStr statusCode),
           (''headers'', headers)])]"

text \<open>Lines 166 to 179: the data file is written when the example is truthy, and
  the descriptor's headers get the content type.\<close>

definition writeData :: "env \<Rightarrow> jsval \<Rightarrow> jsval \<Rightarrow> string \<Rightarrow> string \<Rightarrow> jsval \<Rightarrow> jsval io" where
  "writeData env registryJSON requestId dataPath contentType responseData =
     (if truthy responseData then
        (let responseData' =
               (if requestId = JStr ''getRegistry'' then registryJSON else responseData);
             stringified = JSON_stringify env responseData';
             stringified' =
               (if stringified \<noteq> [] then replace_localhost env stringified else stringified)
         in case JSON_parse env stringified' of
              None \<Rightarrow> throw SyntaxError
            | Some d \<Rightarrow>
                bnd (outputJSON env dataPath d)
                  (\<lambda>u. ret (JObj Plain [(''content-type'', JStr contentType)])))
      else ret (JObj Plain []))"

text \<open>The example that lines 149 to 164 select for one status code: \<open>response\<close> is
  \<^verbatim>\<open>responses[statusCode]\<close>. The placeholder is stored in the response object, which is
  read here only and dropped from the document at line 184.\<close>

definition selectExample :: "env \<Rightarrow> jsval \<Rightarrow> error + string \<times> jsval" where
  "selectExample env response =
     bindE (js_get response ''examples'') (\<lambda>examples0.
     bindE (if \<not> truthy examples0
            then js_set response ''examples''
                   (JObj Plain [(''application/json'', JObj Plain [(''sample'', JBool True)])])
            else Inr response) (\<lambda>response'.
     bindE (js_get response' ''examples'') (\<lambda>examples.
     bindE (js_keys examples) (\<lambda>contentTypeList.
       (let contentType = selectContentType (webMIMETypes env) contentTypeList in
        bindE (js_get examples contentType) (\<lambda>responseData.
          Inr (contentType, responseData)))))))"

text \<open>Whether the branch of line 166 is taken for a status code: the example that
  lines 149 to 164 select is truthy.\<close>

definition writesData :: "env \<Rightarrow> jsval \<Rightarrow> string \<Rightarrow> bool" where
  "writesData env responses statusCode =
     (case bindE (js_get responses statusCode) (selectExample env) of
        Inl e \<Rightarrow> False
      | Inr (contentType, responseData) \<Rightarrow> truthy responseData)"

text \<open>One status code, lines 122 to 182.\<close>

definition materializeStatus ::
  "env \<Rightarrow> jsval \<Rightarrow> jsval \<Rightarrow> string \<Rightarrow> jsval \<Rightarrow> string \<Rightarrow> jsval \<Rightarrow> string \<Rightarrow> unit io" where
  "materializeStatus env registryJSON requestData method requestId responseMethodPath
       responses statusCode =
     (if statusCode = ''default'' then ret ()
      else
        (let responsePath = path_join env responseMethodPath ''default'';
             dataDescriptorPath = path_join env responsePath ''descriptor.json'';
             dataPath = path_join env responsePath ''data.json''
         in
           bnd (lift (js_get requestData ''parameters'')) (\<lambda>parameters.
           bnd (ensureDir env responsePath) (\<lambda>u.
           bnd (lift (js_get responses statusCode)) (\<lambda>response.
           bnd (lift (selectExample env response)) (\<lambda>(contentType, responseData).
           bnd (writeData env registryJSON requestId dataPath contentType responseData)
             (\<lambda>headers.
               outputJSON env dataDescriptorPath
                 (descriptor parameters method (path_relative env responsePath dataPath)
                    statusCode headers))))))))"

fun materializeStatuses ::
  "env \<Rightarrow> jsval \<Rightarrow> jsval \<Rightarrow> string \<Rightarrow> jsval \<Rightarrow> string \<Rightarrow> jsval \<Rightarrow> string list \<Rightarrow> unit io" where
  "materializeStatuses env registryJSON requestData method requestId responseMethodPath
       responses [] = ret ()"
| "materializeStatuses env registryJSON requestData method requestId responseMethodPath
       responses (statusCode # statusCodes) =
     bnd (materializeStatus env registryJSON requestData method requestId
            responseMethodPath responses statusCode)
       (\<lambda>u. materializeStatuses env registryJSON requestData method requestId
               responseMethodPath responses statusCodes)"

text \<open>One method of one path, lines 115 to 184; the result is \<^verbatim>\<open>requestPath\<close> after
  the assignment to \<^verbatim>\<open>requestData.responses\<close>.\<close>

definition materializeMethod :: "env \<Rightarrow> jsval \<Rightarrow> jsval \<Rightarrow> string \<Rightarrow> jsval io" where
  "materializeMethod env registryJSON requestPath method =
     bnd (lift (js_get requestPath method)) (\<lambda>requestData.
     bnd (lift (js_get requestData ''responses'')) (\<lambda>responses.
     bnd (lift (js_get requestData ''operationId'')) (\<lambda>requestId.
     bnd (lift (js_ToString env requestId)) (\<lambda>requestIdText.
       (let responseMethodPath = path_join env (responsesPath env) requestIdText
        in
          bnd (ensureDir env responseMethodPath) (\<lambda>u.
          bnd (lift (js_keys responses)) (\<lambda>statusCodes.
          bnd (materializeStatuses env registryJSON requestData method requestId
                 responseMethodPath responses statusCodes) (\<lambda>u.
          bnd (lift (js_set requestData ''responses''
                 (JStr (path_relative env (apiPath env) responseMethodPath))))
            (\<lambda>requestData'. ret (alias_put requestPath method requestData'))))))))))"

fun materializeMethods :: "env \<Rightarrow> jsval \<Rightarrow> string list \<Rightarrow> jsval \<Rightarrow> jsval io" where
  "materializeMethods env registryJSON [] requestPath = ret requestPath"
| "materializeMethods env registryJSON (method # methods) requestPath =
     bnd (materializeMethod env registryJSON requestPath method)
       (\<lambda>requestPath'. materializeMethods env registryJSON methods requestPath')"

definition materializePath :: "env \<Rightarrow> jsval \<Rightarrow> jsval \<Rightarrow> string \<Rightarrow> jsval io" where
  "materializePath env registryJSON schemaPaths requestPathKey =
     bnd (lift (js_get schemaPaths requestPathKey)) (\<lambda>requestPath.
     bnd (lift (js_keys requestPath)) (\<lambda>methods.
     bnd (materializeMethods env registryJSON methods requestPath) (\<lambda>requestPath'.
       ret (alias_put schemaPaths requestPathKey requestPath'))))"

fun materializePaths :: "env \<Rightarrow> jsval \<Rightarrow> string list \<Rightarrow> jsval \<Rightarrow> jsval io" where
  "materializePaths env registryJSON [] schemaPaths = ret schemaPaths"
| "materializePaths env registryJSON (requestPathKey # keys) schemaPaths =
     bnd (materializePath env registryJSON schemaPaths requestPathKey)
       (\<lambda>schemaPaths'. materializePaths env registryJSON keys schemaPaths')"

definition materialize :: "env \<Rightarrow> jsval \<Rightarrow> jsval \<Rightarrow> jsval io" where
  "materialize env registryJSON schemaPaths =
     bnd (lift (js_keys schemaPaths)) (\<lambda>keys.
       materializePaths env registryJSON keys schemaPaths)"

subsection \<open>Definitions, lines 188 to 193\<close>

fun extractDefinitions :: "env \<Rightarrow> jsval \<Rightarrow> string list \<Rightarrow> unit io" where
  "extractDefinitions env definitions [] = ret ()"
| "extractDefinitions env definitions (schemaDefinitionPath # names) =
     bnd (lift (js_get definitions schemaDefinitionPath)) (\<lambda>definitionValue.
     bnd (outputJSON env
            (path_join env (definitionsPath env) (schemaDefinitionPath @ ''.json''))
            definitionValue) (\<lambda>u.
       extractDefinitions env definitions names))"

subsection \<open>The whole run, lines 50 to 202, and the dispatch, lines 205 to 220\<close>

definition parseBody :: "env \<Rightarrow> string \<Rightarrow> jsval io" where
  "parseBody env body =
     (case JSON_parse env body of None \<Rightarrow> throw SyntaxError | Some v \<Rightarrow> ret v)"

definition grab :: "env \<Rightarrow> unit io" where
  "grab env =
     bnd (makeRequest env (schemaURL env)) (\<lambda>(schemaResponse, schemaBody).
     bnd (makeRequest env (registryEndpoint env)) (\<lambda>(registryResponse, registryBody).
     bnd (parseBody env schemaBody) (\<lambda>schemaJSON0.
     bnd (parseBody env registryBody) (\<lambda>registryJSON.
     bnd (lift (js_get registryJSON ''endpointMap'')) (\<lambda>endpointMap.
     bnd (lift (js_get schemaJSON0 ''paths'')) (\<lambda>schemaPaths0.
     bnd (lift (normalizeBasePath env schemaJSON0)) (\<lambda>schemaJSON.
     bnd (merge env schemaPaths0 endpointMap) (\<lambda>schemaPaths1.
     bnd (materialize env registryJSON schemaPaths1) (\<lambda>schemaPaths.
     bnd (lift (js_get schemaJSON ''definitions'')) (\<lambda>definitions.
     bnd (lift (js_keys definitions)) (\<lambda>names.
     bnd (extractDefinitions env definitions names) (\<lambda>u.
       outputJSON env (schemaPath env)
         (js_delete (alias_put schemaJSON ''paths'' schemaPaths) ''definitions'')))))))))))))"

text \<open>The exported function: the first argument its callback receives (\<open>None\<close> for
  \<^verbatim>\<open>callback(null, ...)\<close> and \<^verbatim>\<open>callback()\<close>).\<close>

definition run :: "env \<Rightarrow> string \<Rightarrow> world \<Rightarrow> error option \<times> world" where
  "run env action w =
     (if action = ''grab'' then
        (case grab env w of
           (Inl errorResponse, w') \<Rightarrow> (Some errorResponse, w')
         | (Inr u, w') \<Rightarrow> (None, w'))
      else (None, w))"

section \<open>Notions for stating the properties\<close>

text \<open>The path key that line 93 derives from a registry entry, and a registry entry as
  the data model has it: its method and URL are strings, its \<^verbatim>\<open>id\<close> is the key it
  is stored under, and its path key is an ordinary property name.\<close>

definition entryPathKey :: "jsval \<Rightarrow> string \<Rightarrow> string" where
  "entryPathKey endpointMap endpointMapKey =
     (case bindE (js_get endpointMap endpointMapKey) (\<lambda>d. js_get d ''url'') of
        Inr (JStr u) \<Rightarrow> replace_first ''/ccstoreui/v1'' [] u
      | _ \<Rightarrow> [])"

definition wellFormedEntry :: "jsval \<Rightarrow> string \<Rightarrow> bool" where
  "wellFormedEntry endpointMap endpointMapKey =
     (case js_get endpointMap endpointMapKey of
        Inl e \<Rightarrow> False
      | Inr d \<Rightarrow>
          (case js_get d ''method'' of
             Inr (JStr m) \<Rightarrow>
               (case js_get d ''url'' of
                  Inr (JStr u) \<Rightarrow>
                    js_get d ''id'' = Inr (JStr endpointMapKey)
                    \<and> replace_first ''/ccstoreui/v1'' [] u \<noteq> ''__proto__''
                | _ \<Rightarrow> False)
           | _ \<Rightarrow> False))"

text \<open>An operation id that the scan of lines 71 to 75 finds under a path key, and a
  path key under which the scan does not throw.\<close>

definition operationIdAt :: "jsval \<Rightarrow> string \<Rightarrow> jsval \<Rightarrow> bool" where
  "operationIdAt schemaPaths requestPathKey x =
     (\<exists>requestPath methods. js_get schemaPaths requestPathKey = Inr requestPath
        \<and> js_keys requestPath = Inr methods
        \<and> (\<exists>method \<in> set methods. \<exists>requestData. js_get requestPath method = Inr requestData
              \<and> js_get requestData ''operationId'' = Inr x))"

definition pathReadable :: "jsval \<Rightarrow> string \<Rightarrow> bool" where
  "pathReadable schemaPaths requestPathKey =
     (\<exists>requestPath methods. js_get schemaPaths requestPathKey = Inr requestPath
        \<and> js_keys requestPath = Inr methods
        \<and> (\<forall>method \<in> set methods. \<exists>requestData x. js_get requestPath method = Inr requestData
              \<and> js_get requestData ''operationId'' = Inr x))"

text \<open>The properties of a paths mapping as the data model has it: every path entry is a
  mapping of methods to operations, and no operation is \<^verbatim>\<open>null\<close>.\<close>

definition wellFormedPaths :: "(string \<times> jsval) list \<Rightarrow> bool" where
  "wellFormedPaths ps =
     list_all (\<lambda>requestPath.
       case snd requestPath of
         JObj kd operations \<Rightarrow>
           list_all (\<lambda>requestData. snd requestData \<noteq> JNull \<and> snd requestData \<noteq> JUndefined)
             operations
       | _ \<Rightarrow> False) ps"

text \<open>
  The sample content of a response as section 4.4 of the specification words it, read
  from the response alone. The declared examples are the entries of the \<^verbatim>\<open>examples\<close>
  mapping, in their order, and the placeholder example for a response with no
  \<^verbatim>\<open>examples\<close> attribute (step 2); the content type is the first declared media type
  that is in the list of web MIME types, and \<^verbatim>\<open>application/json\<close> when none is
  (step 3); the sample content is the example declared under that content type (step 4).
  A response had sample content when that example is declared and truthy, and had none
  when no example is declared under the content type.
\<close>

definition declaredExamples :: "jsval \<Rightarrow> (string \<times> jsval) list option" where
  "declaredExamples response =
     (case response of
        JObj kd attributes \<Rightarrow>
          (case map_of attributes ''examples'' of
             None \<Rightarrow> Some [(''application/json'', JObj Plain [(''sample'', JBool True)])]
           | Some (JObj k examples) \<Rightarrow> Some examples
           | Some v \<Rightarrow> None)
      | _ \<Rightarrow> None)"

definition preferredContentType :: "string list \<Rightarrow> string list \<Rightarrow> string" where
  "preferredContentType mimeTypes declared =
     (case filter (\<lambda>mimeType. mimeType \<in> set mimeTypes) declared of
        [] \<Rightarrow> ''application/json''
      | mimeType # rest \<Rightarrow> mimeType)"

definition hadSampleContent :: "string list \<Rightarrow> jsval \<Rightarrow> bool" where
  "hadSampleContent mimeTypes response =
     (case declaredExamples response of
        None \<Rightarrow> False
      | Some examples \<Rightarrow>
          (case map_of examples (preferredContentType mimeTypes (map fst examples)) of
             None \<Rightarrow> False
           | Some responseData \<Rightarrow> truthy responseData))"

definition hadNoSampleContent :: "string list \<Rightarrow> jsval \<Rightarrow> bool" where
  "hadNoSampleContent mimeTypes response =
     (case declaredExamples response of
        None \<Rightarrow> False
      | Some examples \<Rightarrow>
          map_of examples (preferredContentType mimeTypes (map fst examples)) = None)"

text \<open>The first declared media type is in the list of web MIME types, or none is: the
  responses for which the content type does not depend on the order of the declared
  types.\<close>

definition firstTypePreferred :: "string list \<Rightarrow> jsval \<Rightarrow> bool" where
  "firstTypePreferred mimeTypes response =
     (case declaredExamples response of
        None \<Rightarrow> False
      | Some [] \<Rightarrow> True
      | Some (example # examples) \<Rightarrow>
          fst example \<in> set mimeTypes
          \<or> list_all (\<lambda>other. fst other \<notin> set mimeTypes) examples)"

text \<open>The directory \<^verbatim>\<open>responseMethodPath\<close> of an operation, line 118.\<close>

definition operationDirectory :: "env \<Rightarrow> jsval \<Rightarrow> string" where
  "operationDirectory env requestData =
     (case bindE (js_get requestData ''operationId'') (js_ToString env) of
        Inl e \<Rightarrow> []
      | Inr requestIdText \<Rightarrow> path_join env (responsesPath env) requestIdText)"

text \<open>The keys of a JavaScript object are distinct; the representation of objects as
  lists does not enforce it, so statements about whole documents assume it.\<close>

definition distinctKeys :: "jsval \<Rightarrow> bool" where
  "distinctKeys v = (case v of JObj kd ps \<Rightarrow> distinct (map fst ps) | _ \<Rightarrow> True)"

text \<open>Every operation of a path entry has its \<^verbatim>\<open>responses\<close> replaced by the relative path
  of its directory.\<close>

definition responsesRewritten :: "env \<Rightarrow> jsval \<Rightarrow> jsval \<Rightarrow> bool" where
  "responsesRewritten env requestPath requestPath' =
     (\<forall>kd mps method requestData. requestPath = JObj kd mps \<longrightarrow>
        map_of mps method = Some requestData \<longrightarrow>
        bindE (js_get requestPath' method) (\<lambda>requestData'. js_get requestData' ''responses'')
          = Inr (JStr (path_relative env (apiPath env) (operationDirectory env requestData))))"

text \<open>A computation that removes no file.\<close>

definition keepsFiles :: "'a io \<Rightarrow> bool" where
  "keepsFiles m = (\<forall>(w::world) p. files w p \<noteq> None \<longrightarrow> files (snd (m w)) p \<noteq> None)"

section \<open>A sample environment\<close>

text \<open>
  A concrete environment for running the definitions: the path functions on absolute,
  normalised directories and plain segments, a parser and a serialiser that know the
  documents listed here (the serialiser gives the listed text of a document, without the
  indentation that \<^verbatim>\<open>JSON.stringify(v, null, 2)\<close> adds), a network that serves the
  given bodies by URL, and a file system that accepts every write.
\<close>

definition sample_join :: "string \<Rightarrow> string \<Rightarrow> string" where
  "sample_join a b = a @ ''/'' @ b"

definition sample_relative :: "string \<Rightarrow> string \<Rightarrow> string" where
  "sample_relative from to =
     (if starts_with to (from @ ''/'') then drop (length from + 1) to else to)"

definition sample_response :: "jsval \<Rightarrow> jsval" where
  "sample_response examples = JObj Plain [(''examples'', examples)]"

definition sample_entry :: "string \<Rightarrow> string \<Rightarrow> string \<Rightarrow> jsval" where
  "sample_entry ident method url =
     JObj Plain [(''id'', JStr ident), (''method'', JStr method), (''url'', JStr url)]"

definition sample_operation :: "string \<Rightarrow> jsval \<Rightarrow> jsval" where
  "sample_operation ident responses =
     JObj Plain [(''operationId'', JStr ident), (''responses'', responses)]"

definition sample_schema_text :: string where
  \<open>sample_schema_text = ''{"basePath":"/ccstore/v1","paths":{"/items":{"get":{"operationId":"listItems","responses":{"200":{"examples":{"application/json":{"ok":true}}}}}}}}''\<close>

definition sample_paths :: jsval where
  "sample_paths =
     JObj Plain [(''/items'', JObj Plain [(''get'',
       sample_operation ''listItems''
         (JObj Plain [(''200'', sample_response
            (JObj Plain [(''application/json'', JObj Plain [(''ok'', JBool True)])]))]))])]"

definition sample_schema :: jsval where
  "sample_schema = JObj Plain [(''basePath'', JStr ''/ccstore/v1''), (''paths'', sample_paths)]"

definition sample_registry_text :: string where
  \<open>sample_registry_text = ''{"endpointMap":{"listItems":{"id":"listItems","method":"GET","url":"/ccstoreui/v1/items"}}}''\<close>

definition sample_registry :: jsval where
  "sample_registry =
     JObj Plain [(''endpointMap'', JObj Plain
       [(''listItems'', sample_entry ''listItems'' ''GET'' ''/ccstoreui/v1/items'')])]"

definition sample_documents :: "(string \<times> jsval) list" where
  \<open>sample_documents =
     [(''null'', JNull),
      (''{"status":"404"}'', JObj Plain [(''status'', JStr ''404'')]),
      (''{"ok":true}'', JObj Plain [(''ok'', JBool True)]),
      (sample_schema_text, sample_schema),
      (sample_registry_text, sample_registry)]\<close>

definition sample_stringify :: "jsval \<Rightarrow> string" where
  "sample_stringify v =
     (case find (\<lambda>d. snd d = v) sample_documents of None \<Rightarrow> ''{}'' | Some d \<Rightarrow> fst d)"

definition sample_network :: "(string \<times> string) list \<Rightarrow> nat \<Rightarrow> string \<Rightarrow> transport" where
  "sample_network served n url =
     (case map_of served url of
        None \<Rightarrow> TransportFailure ''ENOTFOUND''
      | Some body \<Rightarrow> TransportSuccess (Response 200 []) body)"

definition sample_env :: "(string \<times> string) list \<Rightarrow> env" where
  "sample_env served =
     \<lparr>dns = ''https://occ.test'',
      apiPath = ''/api'',
      webMIMETypes = [''application/json'', ''text/html'', ''text/plain''],
      path_join = sample_join,
      path_relative = sample_relative,
      JSON_parse = map_of sample_documents,
      JSON_stringify = sample_stringify,
      replace_localhost = (\<lambda>s. s),
      ToString_other = (\<lambda>v. Inr ''0''),
      network = sample_network served,
      io_ok = (\<lambda>p. True)\<rparr>"

definition fresh :: world where
  "fresh = \<lparr>files = Map.empty, dirs = {}, requested = []\<rparr>"

text \<open>Equations for running the definitions on concrete inputs.\<close>

lemmas sample_eval = sample_env_def sample_network_def sample_documents_def
  sample_stringify_def sample_join_def sample_relative_def fresh_def sample_response_def
  sample_operation_def sample_entry_def sample_schema_text_def sample_schema_def
  sample_paths_def sample_registry_text_def sample_registry_def

section \<open>Properties of objects\<close>

lemma map_of_replace_value:
  "map_of (replace_value k v ps) =
     (if k \<in> set (map fst ps) then (map_of ps)(k \<mapsto> v) else map_of ps)"
  by (induction ps) (auto simp: fun_eq_iff)

lemma map_of_insert_index:
  "k \<notin> set (map fst ps) \<Longrightarrow> map_of (insert_index k v ps) = (map_of ps)(k \<mapsto> v)"
  by (induction ps) (auto simp: fun_eq_iff)

lemma map_of_obj_put: "map_of (obj_put ps k v) = (map_of ps)(k \<mapsto> v)"
proof (cases "k \<in> set (map fst ps)")
  case True
  then show ?thesis by (simp add: obj_put_def map_of_replace_value)
next
  case False
  then have "map_of ps k = None" by (simp add: map_of_eq_None_iff)
  then have "map_of (ps @ [(k, v)]) = (map_of ps)(k \<mapsto> v)"
    by (auto simp: fun_eq_iff map_add_def split: option.splits)
  with False show ?thesis by (simp add: obj_put_def map_of_insert_index)
qed

lemma js_get_JStr_object:
  "js_get v k = Inr (JStr s) \<Longrightarrow> \<not> is_index k \<Longrightarrow> \<exists>kd ps. v = JObj kd ps"
  by (cases v) auto

lemma replace_value_obj_put: "k \<in> set (map fst ps) \<Longrightarrow> obj_put ps k v = replace_value k v ps"
  by (simp add: obj_put_def)

lemma keys_replace_value: "map fst (replace_value k v ps) = map fst ps"
  by (induction ps) auto

lemma keys_insert_index: "fst ` set (insert_index k v ps) = insert k (fst ` set ps)"
  by (induction ps) auto

lemma keys_obj_put: "fst ` set (obj_put ps k v) = insert k (fst ` set ps)"
proof (cases "k \<in> set (map fst ps)")
  case True
  have "fst ` set (replace_value k v ps) = set (map fst (replace_value k v ps))" by simp
  also have "\<dots> = fst ` set ps" by (simp only: keys_replace_value) simp
  finally show ?thesis using True by (auto simp: obj_put_def)
next
  case False
  then show ?thesis by (auto simp: obj_put_def keys_insert_index)
qed

lemma map_of_replace_value_present:
  "map_of ps k = Some v \<Longrightarrow> map_of (replace_value k v' ps) = (map_of ps)(k \<mapsto> v')"
  by (simp add: map_of_replace_value) (metis domI dom_map_of_conv_image_fst)

lemma js_keys_get: "js_keys v = Inr ks \<Longrightarrow> \<exists>d. js_get v k = Inr d"
  by (cases v) auto

section \<open>Results and effects: simplification\<close>

lemma bindE_simps [simp]:
  "bindE (Inl e) f = Inl e"
  "bindE (Inr x) f = f x"
  by (simp_all add: bindE_def)

lemma bnd_lift [simp]:
  "bnd (lift (Inl e)) f w = (Inl e, w)"
  "bnd (lift (Inr x)) f w = f x w"
  by (simp_all add: bnd_def lift_def)

lemma bnd_ret [simp]: "bnd (ret x) f w = f x w"
  by (simp add: bnd_def ret_def)

lemma bnd_result:
  "m w = (Inr x, w') \<Longrightarrow> bnd m f w = f x w'"
  "m w = (Inl e, w') \<Longrightarrow> bnd m f w = (Inl e, w')"
  by (simp_all add: bnd_def)

lemma bnd_Inr_iff:
  "bnd m f w = (Inr y, w'') \<longleftrightarrow> (\<exists>x w'. m w = (Inr x, w') \<and> f x w' = (Inr y, w''))"
  by (auto simp: bnd_def split: prod.splits sum.splits)

lemma lift_Inr_iff: "lift r w = (Inr x, w') \<longleftrightarrow> r = Inr x \<and> w' = w"
  by (auto simp: lift_def)

lemma ret_Inr_iff: "ret x w = (Inr y, w') \<longleftrightarrow> y = x \<and> w' = w"
  by (auto simp: ret_def)

lemma ensureDir_Inr_iff:
  "ensureDir env p w = (Inr u, w') \<longleftrightarrow> io_ok env p \<and> w' = w\<lparr>dirs := insert p (dirs w)\<rparr>"
  by (auto simp: ensureDir_def)

lemma outputJSON_Inr_iff:
  "outputJSON env p v w = (Inr u, w') \<longleftrightarrow> io_ok env p \<and> w' = w\<lparr>files := (files w)(p \<mapsto> v)\<rparr>"
  by (auto simp: outputJSON_def)

lemma bnd_throw [simp]: "bnd (throw e) f w = (Inl e, w)"
  by (simp add: bnd_def throw_def)

lemma bnd_assoc: "bnd (bnd m g) f w = bnd m (\<lambda>x. bnd (g x) f) w"
  by (simp add: bnd_def split: prod.splits sum.splits)

lemma bnd_ensureDir:
  "bnd (ensureDir env p) f w =
     (if io_ok env p then f () (w\<lparr>dirs := insert p (dirs w)\<rparr>) else (Inl (FileSystemError p), w))"
  by (simp add: bnd_def ensureDir_def)

lemma bnd_outputJSON:
  "bnd (outputJSON env p v) f w =
     (if io_ok env p then f () (w\<lparr>files := (files w)(p \<mapsto> v)\<rparr>)
      else (Inl (FileSystemError p), w))"
  by (simp add: bnd_def outputJSON_def)

lemma bnd_if: "bnd (if c then m else n) f w = (if c then bnd m f w else bnd n f w)"
  by simp

lemmas io_eval = bnd_assoc bnd_ensureDir bnd_outputJSON bnd_if outputJSON_def ensureDir_def
  ret_def throw_def lift_def

lemma bnd_makeRequest:
  "bnd (makeRequest env url) f w =
     (case makeRequest env url w of (Inl e, w') \<Rightarrow> (Inl e, w') | (Inr x, w') \<Rightarrow> f x w')"
  by (simp add: bnd_def)

lemma bnd_fetchSample:
  "bnd (fetchSample env method url) f w =
     (case fetchSample env method url w of (Inl e, w') \<Rightarrow> (Inl e, w') | (Inr x, w') \<Rightarrow> f x w')"
  by (simp add: bnd_def)

lemmas status_eval = materializeStatus_def selectExample_def writeData_def
  selectContentType_def writesData_def obj_put_def is_index_def is_digit_def Let_def

lemmas grab_eval = grab_def run_def parseBody_def makeRequest_def bnd_makeRequest bnd_fetchSample
  fetchSample_def normalizeBasePath_def merge_def collectOperationIds_def mergeEntry_def
  synthesized_def materialize_def materializePath_def materializeMethod_def js_ToString_def
  responsesPath_def definitionsPath_def schemaPath_def schemaURL_def registryEndpoint_def
  lower_char_def

section \<open>The remote fetcher: outcomes\<close>

text \<open>
  C6, as the code has it. When the transport succeeds, \<^verbatim>\<open>makeRequest\<close> rejects with a
  SyntaxError when the body is not valid JSON, with a TypeError when the body parses to
  \<^verbatim>\<open>null\<close> (reading \<^verbatim>\<open>parsedBody.status\<close> throws inside the same \<^verbatim>\<open>try\<close>), and with the
  parsed body when its \<^verbatim>\<open>status\<close> is the string \<^verbatim>\<open>404\<close>; in every other case it resolves
  with the transport response and the raw body.
\<close>

theorem makeRequest_outcomes:
  assumes "network env (length (requested w)) url = TransportSuccess resp body"
  shows "fst (makeRequest env url w) =
          (case JSON_parse env body of
             None \<Rightarrow> Inl SyntaxError
           | Some parsedBody \<Rightarrow>
               if parsedBody = JNull \<or> parsedBody = JUndefined then Inl TypeError
               else if js_get parsedBody ''status'' = Inr (JStr ''404'')
                 then Inl (Rejected parsedBody)
               else Inr (resp, body))"
proof (cases "JSON_parse env body")
  case None
  with assms show ?thesis by (simp add: makeRequest_def Let_def)
next
  case (Some parsedBody)
  with assms show ?thesis
    by (cases parsedBody) (simp_all add: makeRequest_def Let_def)
qed

theorem makeRequest_outcomes_witness:
  \<open>fst (makeRequest (sample_env [(''https://occ.test/ping'', ''{"ok":true}'')])
          ''https://occ.test/ping'' fresh)
     = Inr (Response 200 [], ''{"ok":true}'')
   \<and> fst (makeRequest (sample_env [(''https://occ.test/ping'', ''{"status":"404"}'')])
          ''https://occ.test/ping'' fresh)
     = Inl (Rejected (JObj Plain [(''status'', JStr ''404'')]))
   \<and> fst (makeRequest (sample_env [(''https://occ.test/ping'', ''<html>'')])
          ''https://occ.test/ping'' fresh)
     = Inl SyntaxError\<close>
  using
    makeRequest_outcomes [of \<open>sample_env [(''https://occ.test/ping'', ''{"ok":true}'')]\<close>
      fresh "''https://occ.test/ping''" "Response 200 []" \<open>''{"ok":true}''\<close>]
    makeRequest_outcomes [of \<open>sample_env [(''https://occ.test/ping'', ''{"status":"404"}'')]\<close>
      fresh "''https://occ.test/ping''" "Response 200 []" \<open>''{"status":"404"}''\<close>]
    makeRequest_outcomes [of \<open>sample_env [(''https://occ.test/ping'', ''<html>'')]\<close>
      fresh "''https://occ.test/ping''" "Response 200 []" "''<html>''"]
  by (simp add: sample_eval)

text \<open>
  The claim as stated fails on the body \<^verbatim>\<open>null\<close>: the transport succeeds, the body is
  valid JSON and carries no \<^verbatim>\<open>status\<close> of \<^verbatim>\<open>404\<close>, and the request is rejected.
\<close>

theorem makeRequest_null_counterexample:
  \<open>network (sample_env [(''https://occ.test/x'', ''null'')]) 0 ''https://occ.test/x''
      = TransportSuccess (Response 200 []) ''null''
   \<and> JSON_parse (sample_env [(''https://occ.test/x'', ''null'')]) ''null'' = Some JNull
   \<and> fst (makeRequest (sample_env [(''https://occ.test/x'', ''null'')])
            ''https://occ.test/x'' fresh)
      = Inl TypeError\<close>
  by (simp add: sample_eval makeRequest_def)

section \<open>The base path\<close>

text \<open>
  C8. A schema whose \<^verbatim>\<open>basePath\<close> is \<^verbatim>\<open>/ccadmin/v1\<close> has the base path
  \<^verbatim>\<open>/ccadminui/v1\<close> after normalisation, and a schema whose base path contains the
  marker \<^verbatim>\<open>ui\<close> is left as it is.
\<close>

theorem normalizeBasePath_ui:
  assumes "js_get schemaJSON ''basePath'' = Inr (JStr s)"
  shows "(s = ''/ccadmin/v1'' \<longrightarrow>
            bindE (normalizeBasePath env schemaJSON)
              (\<lambda>schemaJSON'. js_get schemaJSON' ''basePath'')
              = Inr (JStr ''/ccadminui/v1''))
       \<and> (contains s ''ui'' \<longrightarrow> normalizeBasePath env schemaJSON = Inr schemaJSON)"
proof -
  have "\<not> is_index ''basePath''"
    by (simp add: is_index_def is_digit_def)
  with assms obtain kd ps where obj: "schemaJSON = JObj kd ps"
    using js_get_JStr_object by blast
  show ?thesis
    using assms unfolding obj
    by (simp add: normalizeBasePath_def bindE_def js_ToString_def map_of_obj_put)
qed

theorem normalizeBasePath_ui_witness:
  "bindE (normalizeBasePath (sample_env [])
            (JObj Plain [(''basePath'', JStr ''/ccadmin/v1''), (''paths'', JObj Plain [])]))
      (\<lambda>schemaJSON'. js_get schemaJSON' ''basePath'')
     = Inr (JStr ''/ccadminui/v1'')
   \<and> normalizeBasePath (sample_env [])
       (JObj Plain [(''basePath'', JStr ''/ccstoreui/v1''), (''paths'', JObj Plain [])])
     = Inr (JObj Plain [(''basePath'', JStr ''/ccstoreui/v1''), (''paths'', JObj Plain [])])"
  using
    normalizeBasePath_ui [of
      "JObj Plain [(''basePath'', JStr ''/ccadmin/v1''), (''paths'', JObj Plain [])]"
      "''/ccadmin/v1''" "sample_env []"]
    normalizeBasePath_ui [of
      "JObj Plain [(''basePath'', JStr ''/ccstoreui/v1''), (''paths'', JObj Plain [])]"
      "''/ccstoreui/v1''" "sample_env []"]
  by simp

section \<open>The merge stage\<close>

lemma makeRequest_body_parses:
  "fst (makeRequest env url w) = Inr (resp, body) \<Longrightarrow> JSON_parse env body \<noteq> None"
  by (auto simp: makeRequest_def Let_def split: transport.splits option.splits sum.splits if_splits)

lemma fetchSample_returns: "\<exists>sampleResponse. fst (fetchSample env method url w) = Inr sampleResponse"
  by (auto simp: fetchSample_def split: prod.splits sum.splits option.splits)

lemma requested_makeRequest: "requested (snd (makeRequest env url w)) = requested w @ [url]"
  by (auto simp: makeRequest_def Let_def split: transport.splits option.splits sum.splits)

lemma requested_fetchSample:
  "requested (snd (fetchSample env method url w)) =
     requested w @
       (case js_ToString env url of
          Inl e \<Rightarrow> []
        | Inr urlText \<Rightarrow>
            if method = ''get'' \<and> \<not> contains urlText ''{}'' then [dns env @ urlText] else [])"
proof (cases "js_ToString env url")
  case (Inl e)
  then show ?thesis by (simp add: fetchSample_def)
next
  case (Inr urlText)
  show ?thesis
  proof (cases "method = ''get'' \<and> \<not> contains urlText ''{}''")
    case True
    obtain r w' where mr: "makeRequest env (dns env @ urlText) w = (r, w')"
      by (cases "makeRequest env (dns env @ urlText) w")
    then have "requested w' = requested w @ [dns env @ urlText]"
      using requested_makeRequest [of env "dns env @ urlText" w] by simp
    with True Inr mr show ?thesis
      by (auto simp: fetchSample_def split: sum.splits option.splits)
  next
    case False
    with Inr show ?thesis by (auto simp: fetchSample_def)
  qed
qed

lemma mergeEntry_missing:
  assumes "js_get endpointMap k = Inr d"
    and "JStr k \<notin> set operationsIds"
    and "js_get d ''method'' = Inr (JStr m)"
    and "js_get d ''url'' = Inr (JStr u)"
    and "js_get d ''id'' = Inr ident"
    and "fetchSample env (map lower_char m) (JStr u) w = (Inr sampleResponse, w')"
  shows "mergeEntry env endpointMap operationsIds schemaPaths k w =
           (js_set schemaPaths (replace_first ''/ccstoreui/v1'' [] u)
              (synthesized (map lower_char m) ident sampleResponse), w')"
  using assms by (simp add: mergeEntry_def bnd_result lift_def)

lemma mergeEntry_present:
  assumes "js_get endpointMap k = Inr d" and "JStr k \<in> set operationsIds"
  shows "mergeEntry env endpointMap operationsIds schemaPaths k w = (Inr schemaPaths, w)"
  using assms by (simp add: mergeEntry_def ret_def)

subsection \<open>When a sample is fetched\<close>

text \<open>
  C3, as the code has it. For a registry entry whose operation id is absent from the
  schema, the merge requests the entry's absolute URL exactly when the lower-cased method
  is \<^verbatim>\<open>get\<close> and the URL does not contain the two characters \<^verbatim>\<open>{}\<close>, the literal text
  that the pattern of line 87 matches; nothing else is requested for the entry.
\<close>

theorem sample_fetch_attempted:
  assumes "js_get endpointMap endpointMapKey = Inr endpointMapData"
    and "JStr endpointMapKey \<notin> set operationsIds"
    and "js_get endpointMapData ''method'' = Inr (JStr m)"
    and "js_get endpointMapData ''url'' = Inr (JStr u)"
  shows "requested (snd (mergeEntry env endpointMap operationsIds schemaPaths endpointMapKey w)) =
           requested w @
             (if map lower_char m = ''get'' \<and> \<not> contains u ''{}'' then [dns env @ u] else [])"
proof -
  obtain ident where ident: "js_get endpointMapData ''id'' = Inr ident"
    using assms(3) by (cases endpointMapData) auto
  obtain sampleResponse w' where
    fs: "fetchSample env (map lower_char m) (JStr u) w = (Inr sampleResponse, w')"
    using fetchSample_returns [of env "map lower_char m" "JStr u" w]
    by (cases "fetchSample env (map lower_char m) (JStr u) w") auto
  have "requested w' =
          requested w @
            (if map lower_char m = ''get'' \<and> \<not> contains u ''{}'' then [dns env @ u] else [])"
    using requested_fetchSample [of env "map lower_char m" "JStr u" w] fs
    by (simp add: js_ToString_def)
  then show ?thesis
    using mergeEntry_missing [OF assms(1,2,3,4) ident fs] by simp
qed

theorem sample_fetch_attempted_witness:
  "requested (snd (mergeEntry (sample_env [])
       (JObj Plain [(''getPing'', sample_entry ''getPing'' ''GET'' ''/ccstoreui/v1/ping'')])
       [JStr ''listItems''] (JObj Plain []) ''getPing'' fresh))
     = [''https://occ.test/ccstoreui/v1/ping'']
   \<and> requested (snd (mergeEntry (sample_env [])
       (JObj Plain [(''getOrder'', sample_entry ''getOrder'' ''GET'' ''/ccstoreui/v1/orders/{}'')])
       [JStr ''listItems''] (JObj Plain []) ''getOrder'' fresh))
     = []
   \<and> requested (snd (mergeEntry (sample_env [])
       (JObj Plain [(''createOrder'', sample_entry ''createOrder'' ''POST'' ''/ccstoreui/v1/orders'')])
       [JStr ''listItems''] (JObj Plain []) ''createOrder'' fresh))
     = []"
  using
    sample_fetch_attempted [of
      "JObj Plain [(''getPing'', sample_entry ''getPing'' ''GET'' ''/ccstoreui/v1/ping'')]"
      "''getPing''" "sample_entry ''getPing'' ''GET'' ''/ccstoreui/v1/ping''"
      "[JStr ''listItems'']" "''GET''" "''/ccstoreui/v1/ping''" "sample_env []" "JObj Plain []" fresh]
    sample_fetch_attempted [of
      "JObj Plain [(''getOrder'', sample_entry ''getOrder'' ''GET'' ''/ccstoreui/v1/orders/{}'')]"
      "''getOrder''" "sample_entry ''getOrder'' ''GET'' ''/ccstoreui/v1/orders/{}''"
      "[JStr ''listItems'']" "''GET''" "''/ccstoreui/v1/orders/{}''" "sample_env []" "JObj Plain []" fresh]
    sample_fetch_attempted [of
      "JObj Plain [(''createOrder'', sample_entry ''createOrder'' ''POST'' ''/ccstoreui/v1/orders'')]"
      "''createOrder''" "sample_entry ''createOrder'' ''POST'' ''/ccstoreui/v1/orders''"
      "[JStr ''listItems'']" "''POST''" "''/ccstoreui/v1/orders''" "sample_env []" "JObj Plain []" fresh]
  by (simp add: sample_entry_def lower_char_def sample_env_def fresh_def)

text \<open>
  The claim as stated fails on a URL with a named placeholder: \<^verbatim>\<open>{id}\<close> is not the text
  \<^verbatim>\<open>{}\<close>, and the URL is requested.
\<close>

theorem sample_fetch_placeholder_counterexample:
  "contains ''/ccstoreui/v1/products/{id}'' ''{id}''
   \<and> requested (snd (mergeEntry (sample_env [])
       (JObj Plain
          [(''getProduct'', sample_entry ''getProduct'' ''GET'' ''/ccstoreui/v1/products/{id}'')])
       [JStr ''listItems''] (JObj Plain []) ''getProduct'' fresh))
     = [''https://occ.test/ccstoreui/v1/products/{id}'']"
  by (simp add: sample_entry_def lower_char_def sample_env_def fresh_def mergeEntry_def
      fetchSample_def js_ToString_def makeRequest_def sample_network_def bnd_def lift_def
      synthesized_def)

subsection \<open>A path key that is already present\<close>

text \<open>
  C9. When the path key of an absent registry entry (its URL without the first
  \<^verbatim>\<open>/ccstoreui/v1\<close>, which is the prefix of a URL that starts with it) is a key of
  \<^verbatim>\<open>schema.paths\<close> already, the merge replaces the whole path entry, in its place, by the
  synthesized object: its only method is the entry's lower-cased method, and every other
  method reads as \<^verbatim>\<open>undefined\<close>.
\<close>

theorem mergeEntry_replaces_whole_path:
  assumes "js_get endpointMap endpointMapKey = Inr endpointMapData"
    and "JStr endpointMapKey \<notin> set operationsIds"
    and "js_get endpointMapData ''method'' = Inr (JStr m)"
    and "js_get endpointMapData ''url'' = Inr (JStr u)"
    and "js_get endpointMapData ''id'' = Inr ident"
    and "fst (fetchSample env (map lower_char m) (JStr u) w) = Inr sampleResponse"
    and "replace_first ''/ccstoreui/v1'' [] u \<in> set (map fst ps)"
  shows "fst (mergeEntry env endpointMap operationsIds (JObj Plain ps) endpointMapKey w) =
           Inr (JObj Plain (replace_value (replace_first ''/ccstoreui/v1'' [] u)
                  (synthesized (map lower_char m) ident sampleResponse) ps))
       \<and> js_get (JObj Plain (replace_value (replace_first ''/ccstoreui/v1'' [] u)
                  (synthesized (map lower_char m) ident sampleResponse) ps))
            (replace_first ''/ccstoreui/v1'' [] u)
           = Inr (synthesized (map lower_char m) ident sampleResponse)
       \<and> js_keys (synthesized (map lower_char m) ident sampleResponse) = Inr [map lower_char m]
       \<and> (\<forall>method. method \<noteq> map lower_char m \<longrightarrow>
             js_get (synthesized (map lower_char m) ident sampleResponse) method
               = Inr JUndefined)"
proof -
  obtain w' where
    fs: "fetchSample env (map lower_char m) (JStr u) w = (Inr sampleResponse, w')"
    using assms(6) by (cases "fetchSample env (map lower_char m) (JStr u) w") auto
  have "fst (mergeEntry env endpointMap operationsIds (JObj Plain ps) endpointMapKey w) =
          Inr (JObj Plain (replace_value (replace_first ''/ccstoreui/v1'' [] u)
                 (synthesized (map lower_char m) ident sampleResponse) ps))"
    using mergeEntry_missing [OF assms(1,2,3,4,5) fs] assms(7)
    by (simp add: replace_value_obj_put)
  moreover have "js_get (JObj Plain (replace_value (replace_first ''/ccstoreui/v1'' [] u)
                  (synthesized (map lower_char m) ident sampleResponse) ps))
            (replace_first ''/ccstoreui/v1'' [] u)
           = Inr (synthesized (map lower_char m) ident sampleResponse)"
    using assms(7) by (simp add: map_of_replace_value)
  moreover have "js_keys (synthesized (map lower_char m) ident sampleResponse)
                   = Inr [map lower_char m]"
    by (simp add: synthesized_def)
  moreover have "\<forall>method. method \<noteq> map lower_char m \<longrightarrow>
             js_get (synthesized (map lower_char m) ident sampleResponse) method
               = Inr JUndefined"
    by (simp add: synthesized_def)
  ultimately show ?thesis by blast
qed

theorem mergeEntry_replaces_whole_path_witness:
  "fst (mergeEntry (sample_env [])
     (JObj Plain [(''deleteOrders'', sample_entry ''deleteOrders'' ''DELETE'' ''/ccstoreui/v1/orders'')])
     [JStr ''listOrders'', JStr ''createOrder'']
     (JObj Plain [(''/orders'', JObj Plain
        [(''get'', sample_operation ''listOrders'' (JObj Plain [])),
         (''post'', sample_operation ''createOrder'' (JObj Plain []))])])
     ''deleteOrders'' fresh)
   = Inr (JObj Plain [(''/orders'',
       synthesized ''delete'' (JStr ''deleteOrders'') (JObj Plain []))])
   \<and> js_keys (synthesized ''delete'' (JStr ''deleteOrders'') (JObj Plain [])) = Inr [''delete'']
   \<and> js_get (synthesized ''delete'' (JStr ''deleteOrders'') (JObj Plain [])) ''get''
       = Inr JUndefined
   \<and> js_get (synthesized ''delete'' (JStr ''deleteOrders'') (JObj Plain [])) ''post''
       = Inr JUndefined"
  using mergeEntry_replaces_whole_path [of
     "JObj Plain [(''deleteOrders'', sample_entry ''deleteOrders'' ''DELETE'' ''/ccstoreui/v1/orders'')]"
     "''deleteOrders''" "sample_entry ''deleteOrders'' ''DELETE'' ''/ccstoreui/v1/orders''"
     "[JStr ''listOrders'', JStr ''createOrder'']" "''DELETE''" "''/ccstoreui/v1/orders''"
     "JStr ''deleteOrders''" "sample_env []" fresh "JObj Plain []"
     "[(''/orders'', JObj Plain
        [(''get'', sample_operation ''listOrders'' (JObj Plain [])),
         (''post'', sample_operation ''createOrder'' (JObj Plain []))])]"]
  by (simp add: sample_entry_def lower_char_def fetchSample_def)

subsection \<open>A failed sample request\<close>

text \<open>
  C7, as the code has it. For an absent registry entry of a paths mapping whose URL is a
  string and whose path key is not \<^verbatim>\<open>__proto__\<close>, and whose sample is requested (method
  \<^verbatim>\<open>get\<close>, no \<^verbatim>\<open>{}\<close> in the URL), every rejection of the request (transport error, invalid
  JSON, \<^verbatim>\<open>null\<close>, the \<^verbatim>\<open>404\<close> marker) is recovered: the assignment of line 93 does not
  throw; afterwards the path key reads as the object with the single method \<^verbatim>\<open>get\<close>,
  whose summary and operation id are the entry's id, which produces \<^verbatim>\<open>application/json\<close>,
  and whose only response, \<^verbatim>\<open>200\<close>, has the empty object as its \<^verbatim>\<open>application/json\<close>
  example; every other path key reads as before; and the loop goes on with the remaining
  entries. By \<open>makeRequest_body_parses\<close> the body of a resolved request always parses, so
  a rejection is the only failure the enrichment has.
\<close>

theorem enrichment_failure_recovered:
  assumes "js_get endpointMap endpointMapKey = Inr endpointMapData"
    and "JStr endpointMapKey \<notin> set operationsIds"
    and "js_get endpointMapData ''method'' = Inr (JStr m)"
    and "js_get endpointMapData ''url'' = Inr (JStr u)"
    and "js_get endpointMapData ''id'' = Inr ident"
    and "map lower_char m = ''get''" and "\<not> contains u ''{}''"
    and "fst (makeRequest env (dns env @ u) w) = Inl e"
    and "key = replace_first ''/ccstoreui/v1'' [] u" and "key \<noteq> ''__proto__''"
  shows "\<exists>schemaPaths'.
           fst (mergeEntry env endpointMap operationsIds (JObj Plain ps) endpointMapKey w)
             = Inr schemaPaths'
         \<and> js_get schemaPaths' key =
             Inr (JObj Plain [(''get'', JObj Plain
               [(''summary'', ident),
                (''operationId'', ident),
                (''produces'', JObj Array [(''0'', JStr ''application/json'')]),
                (''responses'', JObj Plain
                  [(''200'', JObj Plain
                    [(''examples'', JObj Plain [(''application/json'', JObj Plain [])])])])])])
         \<and> (\<forall>other. other \<noteq> key \<longrightarrow> js_get schemaPaths' other = js_get (JObj Plain ps) other)
         \<and> mergeEntries env endpointMap operationsIds (endpointMapKey # keys) (JObj Plain ps) w
             = mergeEntries env endpointMap operationsIds keys schemaPaths'
                 (snd (makeRequest env (dns env @ u) w))"
proof -
  obtain w' where mr: "makeRequest env (dns env @ u) w = (Inl e, w')"
    using assms(8) by (cases "makeRequest env (dns env @ u) w") auto
  have fs: "fetchSample env (map lower_char m) (JStr u) w = (Inr (JObj Plain []), w')"
    using assms(6,7) mr by (simp add: fetchSample_def js_ToString_def)
  let ?entry = "synthesized ''get'' ident (JObj Plain [])"
  let ?schemaPaths' = "JObj Plain (obj_put ps key ?entry)"
  have me: "mergeEntry env endpointMap operationsIds (JObj Plain ps) endpointMapKey w =
              (Inr ?schemaPaths', w')"
    using mergeEntry_missing [OF assms(1,2,3,4,5) fs] assms(6,9,10) by simp
  have get: "js_get ?schemaPaths' key = Inr ?entry"
    by (simp add: map_of_obj_put)
  have others: "\<forall>other. other \<noteq> key \<longrightarrow> js_get ?schemaPaths' other = js_get (JObj Plain ps) other"
    by (simp add: map_of_obj_put)
  have loop: "mergeEntries env endpointMap operationsIds (endpointMapKey # keys) (JObj Plain ps) w
             = mergeEntries env endpointMap operationsIds keys ?schemaPaths'
                 (snd (makeRequest env (dns env @ u) w))"
    using me mr by (simp add: bnd_result)
  show ?thesis
    apply (rule exI [of _ ?schemaPaths'])
    using me get others loop by (simp add: synthesized_def)
qed

theorem enrichment_failure_recovered_witness:
  "fst (makeRequest (sample_env []) ''https://occ.test/ccstoreui/v1/ping'' fresh)
     = Inl (TransportError ''ENOTFOUND'')
   \<and> fst (mergeEntry (sample_env [])
       (JObj Plain [(''getPing'', sample_entry ''getPing'' ''GET'' ''/ccstoreui/v1/ping'')])
       [JStr ''listItems''] (JObj Plain []) ''getPing'' fresh)
     = Inr (JObj Plain [(''/ping'', JObj Plain [(''get'', JObj Plain
               [(''summary'', JStr ''getPing''),
                (''operationId'', JStr ''getPing''),
                (''produces'', JObj Array [(''0'', JStr ''application/json'')]),
                (''responses'', JObj Plain
                  [(''200'', JObj Plain
                    [(''examples'', JObj Plain [(''application/json'', JObj Plain [])])])])])])])
   \<and> fst (mergeEntries (sample_env [])
       (JObj Plain [(''getPing'', sample_entry ''getPing'' ''GET'' ''/ccstoreui/v1/ping'')])
       [JStr ''listItems''] [''getPing''] (JObj Plain []) fresh)
     = fst (mergeEntry (sample_env [])
       (JObj Plain [(''getPing'', sample_entry ''getPing'' ''GET'' ''/ccstoreui/v1/ping'')])
       [JStr ''listItems''] (JObj Plain []) ''getPing'' fresh)"
proof -
  let ?endpointMap =
    "JObj Plain [(''getPing'', sample_entry ''getPing'' ''GET'' ''/ccstoreui/v1/ping'')]"
  let ?entry = "JObj Plain [(''get'', JObj Plain
               [(''summary'', JStr ''getPing''),
                (''operationId'', JStr ''getPing''),
                (''produces'', JObj Array [(''0'', JStr ''application/json'')]),
                (''responses'', JObj Plain
                  [(''200'', JObj Plain
                    [(''examples'', JObj Plain [(''application/json'', JObj Plain [])])])])])]"
  have fails: "fst (makeRequest (sample_env []) (dns (sample_env []) @ ''/ccstoreui/v1/ping'') fresh)
                 = Inl (TransportError ''ENOTFOUND'')"
    by (simp add: makeRequest_def sample_eval)
  have entry: "js_get ?endpointMap ''getPing''
                 = Inr (sample_entry ''getPing'' ''GET'' ''/ccstoreui/v1/ping'')"
    by simp
  have absent: "JStr ''getPing'' \<notin> set [JStr ''listItems'']"
    by simp
  have m: "js_get (sample_entry ''getPing'' ''GET'' ''/ccstoreui/v1/ping'') ''method''
             = Inr (JStr ''GET'')"
    by (simp add: sample_entry_def)
  have u: "js_get (sample_entry ''getPing'' ''GET'' ''/ccstoreui/v1/ping'') ''url''
             = Inr (JStr ''/ccstoreui/v1/ping'')"
    by (simp add: sample_entry_def)
  have ident: "js_get (sample_entry ''getPing'' ''GET'' ''/ccstoreui/v1/ping'') ''id''
             = Inr (JStr ''getPing'')"
    by (simp add: sample_entry_def)
  have lower: "map lower_char ''GET'' = ''get''"
    by (simp add: lower_char_def)
  have plain: "\<not> contains ''/ccstoreui/v1/ping'' ''{}''"
    by simp
  have key: "''/ping'' = replace_first ''/ccstoreui/v1'' [] ''/ccstoreui/v1/ping''"
    by simp
  have ordinary: "''/ping'' \<noteq> ''__proto__''"
    by simp
  from enrichment_failure_recovered [OF entry absent m u ident lower plain fails key ordinary,
      of "[]" "[]"]
  obtain schemaPaths' where
    me: "fst (mergeEntry (sample_env []) ?endpointMap [JStr ''listItems''] (JObj Plain [])
               ''getPing'' fresh) = Inr schemaPaths'"
    and get: "js_get schemaPaths' ''/ping'' = Inr ?entry"
    and loop: "mergeEntries (sample_env []) ?endpointMap [JStr ''listItems''] [''getPing'']
            (JObj Plain []) fresh
          = mergeEntries (sample_env []) ?endpointMap [JStr ''listItems''] [] schemaPaths'
              (snd (makeRequest (sample_env []) (dns (sample_env []) @ ''/ccstoreui/v1/ping'')
                 fresh))"
    by blast
  have run: "fst (mergeEntry (sample_env []) ?endpointMap [JStr ''listItems''] (JObj Plain [])
               ''getPing'' fresh) = Inr (JObj Plain [(''/ping'', ?entry)])"
    by (simp add: mergeEntry_def sample_entry_def lower_char_def fetchSample_def js_ToString_def
        makeRequest_def sample_eval bnd_def lift_def synthesized_def obj_put_def is_index_def
        is_digit_def)
  have "fst (makeRequest (sample_env []) ''https://occ.test/ccstoreui/v1/ping'' fresh)
     = Inl (TransportError ''ENOTFOUND'')"
    using fails by (simp add: sample_env_def)
  moreover have "fst (mergeEntries (sample_env []) ?endpointMap [JStr ''listItems''] [''getPing'']
            (JObj Plain []) fresh) = Inr schemaPaths'"
    using loop by (simp add: ret_def)
  ultimately show ?thesis
    using me run by simp
qed

text \<open>
  The claim as stated fails on an entry whose URL is \<^verbatim>\<open>null\<close>: the method is \<^verbatim>\<open>get\<close> and
  the pattern of line 87 does not match the text \<^verbatim>\<open>null\<close>, so the sample is requested and
  the failure of the request is swallowed; then \<^verbatim>\<open>endpointMapData.url.replace\<close> of line 93
  throws outside the \<^verbatim>\<open>try\<close>, the entry is not inserted and the merge ends with the
  TypeError. It fails also on an entry whose path key is \<^verbatim>\<open>__proto__\<close>: the assignment of
  line 93 sets the prototype of the paths object, which has no more keys than before.
\<close>

theorem enrichment_not_inserted_counterexample:
  "requested (snd (mergeEntry (sample_env [])
       (JObj Plain [(''getPing'', JObj Plain
          [(''id'', JStr ''getPing''), (''method'', JStr ''GET''), (''url'', JNull)])])
       [JStr ''listItems''] (JObj Plain []) ''getPing'' fresh))
     = [''https://occ.testnull'']
   \<and> fst (mergeEntry (sample_env [])
       (JObj Plain [(''getPing'', JObj Plain
          [(''id'', JStr ''getPing''), (''method'', JStr ''GET''), (''url'', JNull)])])
       [JStr ''listItems''] (JObj Plain []) ''getPing'' fresh)
     = Inl TypeError
   \<and> fst (mergeEntries (sample_env [])
       (JObj Plain [(''getPing'', JObj Plain
          [(''id'', JStr ''getPing''), (''method'', JStr ''GET''), (''url'', JNull)])])
       [JStr ''listItems''] [''getPing''] (JObj Plain []) fresh)
     = Inl TypeError
   \<and> requested (snd (mergeEntry (sample_env [])
       (JObj Plain [(''getProto'', sample_entry ''getProto'' ''GET'' ''/ccstoreui/v1__proto__'')])
       [JStr ''listItems''] (JObj Plain []) ''getProto'' fresh))
     = [''https://occ.test/ccstoreui/v1__proto__'']
   \<and> fst (mergeEntry (sample_env [])
       (JObj Plain [(''getProto'', sample_entry ''getProto'' ''GET'' ''/ccstoreui/v1__proto__'')])
       [JStr ''listItems''] (JObj Plain []) ''getProto'' fresh)
     = Inr (JObj Plain [])"
  by (simp add: mergeEntry_def sample_entry_def lower_char_def fetchSample_def js_ToString_def
      makeRequest_def sample_eval bnd_def lift_def synthesized_def)

subsection \<open>Coverage of the registry\<close>

lemma wellFormedEntryE:
  assumes "wellFormedEntry endpointMap k"
  obtains d m u where "js_get endpointMap k = Inr d" "js_get d ''method'' = Inr (JStr m)"
    "js_get d ''url'' = Inr (JStr u)" "js_get d ''id'' = Inr (JStr k)"
    "entryPathKey endpointMap k = replace_first ''/ccstoreui/v1'' [] u"
    "entryPathKey endpointMap k \<noteq> ''__proto__''"
  using assms
  by (auto simp: wellFormedEntry_def entryPathKey_def split: sum.splits jsval.splits)

lemma mergeEntries_invariant:
  assumes "js_keys endpointMap = Inr allKeys"
    and "\<forall>k \<in> set ks. JStr k \<notin> set operationsIds \<longrightarrow> wellFormedEntry endpointMap k"
    and "distinct (map (entryPathKey endpointMap) (filter (\<lambda>k. JStr k \<notin> set operationsIds) ks))"
    and "set (map (entryPathKey endpointMap) (filter (\<lambda>k. JStr k \<notin> set operationsIds) ks))
           \<inter> fst ` set qs = {}"
  shows "\<exists>qs' w'. mergeEntries env endpointMap operationsIds ks (JObj Plain qs) w = (Inr (JObj Plain qs'), w')
          \<and> fst ` set qs' = fst ` set qs \<union>
               set (map (entryPathKey endpointMap) (filter (\<lambda>k. JStr k \<notin> set operationsIds) ks))
          \<and> (\<forall>pk \<in> fst ` set qs. map_of qs' pk = map_of qs pk)
          \<and> (\<forall>k \<in> set ks. JStr k \<notin> set operationsIds \<longrightarrow>
                (\<exists>m s. map_of qs' (entryPathKey endpointMap k) = Some (synthesized m (JStr k) s)))"
  using assms(2,3,4)
proof (induction ks arbitrary: qs w)
  case Nil
  then show ?case by (simp add: ret_def)
next
  case (Cons k ks)
  obtain d where d: "js_get endpointMap k = Inr d"
    using js_keys_get [OF assms(1)] by blast
  show ?case
  proof (cases "JStr k \<in> set operationsIds")
    case True
    have step: "mergeEntries env endpointMap operationsIds (k # ks) (JObj Plain qs) w =
                  mergeEntries env endpointMap operationsIds ks (JObj Plain qs) w"
      using mergeEntry_present [OF d True] by (simp add: bnd_result)
    from Cons.IH [of qs w] Cons.prems True show ?thesis
      unfolding step by simp
  next
    case False
    then have "wellFormedEntry endpointMap k" using Cons.prems(1) by simp
    then obtain d' m u where e: "js_get endpointMap k = Inr d'"
        "js_get d' ''method'' = Inr (JStr m)" "js_get d' ''url'' = Inr (JStr u)"
        "js_get d' ''id'' = Inr (JStr k)"
        and pk: "entryPathKey endpointMap k = replace_first ''/ccstoreui/v1'' [] u"
        and ordinary: "entryPathKey endpointMap k \<noteq> ''__proto__''"
      by (rule wellFormedEntryE)
    obtain s w1 where fs: "fetchSample env (map lower_char m) (JStr u) w = (Inr s, w1)"
      using fetchSample_returns [of env "map lower_char m" "JStr u" w]
      by (cases "fetchSample env (map lower_char m) (JStr u) w") auto
    define qs1 where "qs1 = obj_put qs (entryPathKey endpointMap k)
                              (synthesized (map lower_char m) (JStr k) s)"
    have me: "mergeEntry env endpointMap operationsIds (JObj Plain qs) k w = (Inr (JObj Plain qs1), w1)"
      using mergeEntry_missing [OF e(1) False e(2,3,4) fs] ordinary
      by (simp add: qs1_def pk)
    have step: "mergeEntries env endpointMap operationsIds (k # ks) (JObj Plain qs) w =
                  mergeEntries env endpointMap operationsIds ks (JObj Plain qs1) w1"
      using me by (simp add: bnd_result)
    have keys1: "fst ` set qs1 = insert (entryPathKey endpointMap k) (fst ` set qs)"
      unfolding qs1_def by (rule keys_obj_put)
    have notin: "entryPathKey endpointMap k \<notin> fst ` set qs"
      using Cons.prems(3) False by auto
    have get1: "map_of qs1 = (map_of qs)(entryPathKey endpointMap k \<mapsto>
                   synthesized (map lower_char m) (JStr k) s)"
      by (simp add: qs1_def map_of_obj_put)
    have p1: "\<forall>k \<in> set ks. JStr k \<notin> set operationsIds \<longrightarrow> wellFormedEntry endpointMap k"
      using Cons.prems(1) by simp
    have p2: "distinct (map (entryPathKey endpointMap)
                 (filter (\<lambda>k. JStr k \<notin> set operationsIds) ks))"
      using Cons.prems(2) False by simp
    have p3: "set (map (entryPathKey endpointMap) (filter (\<lambda>k. JStr k \<notin> set operationsIds) ks))
                \<inter> fst ` set qs1 = {}"
    proof -
      have "entryPathKey endpointMap k \<notin>
              set (map (entryPathKey endpointMap) (filter (\<lambda>k. JStr k \<notin> set operationsIds) ks))"
        using Cons.prems(2) False by simp
      moreover have "set (map (entryPathKey endpointMap)
                (filter (\<lambda>k. JStr k \<notin> set operationsIds) ks)) \<inter> fst ` set qs = {}"
        using Cons.prems(3) False by auto
      ultimately show ?thesis unfolding keys1 by blast
    qed
    from Cons.IH [OF p1 p2 p3, of w1] obtain qs' w' where
      IH: "mergeEntries env endpointMap operationsIds ks (JObj Plain qs1) w1 = (Inr (JObj Plain qs'), w')
          \<and> fst ` set qs' = fst ` set qs1 \<union>
               set (map (entryPathKey endpointMap) (filter (\<lambda>k. JStr k \<notin> set operationsIds) ks))
          \<and> (\<forall>pk \<in> fst ` set qs1. map_of qs' pk = map_of qs1 pk)
          \<and> (\<forall>k \<in> set ks. JStr k \<notin> set operationsIds \<longrightarrow>
                (\<exists>m s. map_of qs' (entryPathKey endpointMap k) = Some (synthesized m (JStr k) s)))"
      by (elim exE) (rule that)
    note r = IH [THEN conjunct1]
    note k' = IH [THEN conjunct2, THEN conjunct1]
    note old = IH [THEN conjunct2, THEN conjunct2, THEN conjunct1]
    note new = IH [THEN conjunct2, THEN conjunct2, THEN conjunct2]
    have a: "fst ` set qs' = fst ` set qs \<union>
               set (map (entryPathKey endpointMap)
                 (filter (\<lambda>k. JStr k \<notin> set operationsIds) (k # ks)))"
      using k' keys1 False by auto
    have b: "\<forall>pk \<in> fst ` set qs. map_of qs' pk = map_of qs pk"
    proof
      fix pk assume pk_in: "pk \<in> fst ` set qs"
      then have "pk \<in> fst ` set qs1" and "pk \<noteq> entryPathKey endpointMap k"
        using keys1 notin by blast+
      then show "map_of qs' pk = map_of qs pk"
        using old [rule_format, of pk] get1 by simp
    qed
    have "entryPathKey endpointMap k \<in> fst ` set qs1"
      using keys1 by simp
    then have "map_of qs' (entryPathKey endpointMap k) =
            Some (synthesized (map lower_char m) (JStr k) s)"
      using old [rule_format, of "entryPathKey endpointMap k"] get1 by simp
    then have c: "\<forall>k' \<in> set (k # ks). JStr k' \<notin> set operationsIds \<longrightarrow>
                (\<exists>m s. map_of qs' (entryPathKey endpointMap k') = Some (synthesized m (JStr k') s))"
      using new by auto
    show ?thesis
      unfolding step
      apply (rule exI [of _ qs'], rule exI [of _ w'])
      apply (intro conjI)
         apply (rule r)
        apply (rule a)
       apply (rule b)
      apply (rule c)
      done
  qed
qed

lemma methodOperationIds_set:
  "methodOperationIds e ms acc = Inr ids \<Longrightarrow>
     set ids = set acc \<union>
       {x. \<exists>m \<in> set ms. \<exists>d. js_get e m = Inr d \<and> js_get d ''operationId'' = Inr x}"
proof (induction ms arbitrary: acc)
  case Nil
  then show ?case by simp
next
  case (Cons m ms)
  from Cons.prems obtain d x where d: "js_get e m = Inr d" "js_get d ''operationId'' = Inr x"
    and rest: "methodOperationIds e ms (acc @ [x]) = Inr ids"
    by (auto simp: bindE_def split: sum.splits)
  from Cons.IH [OF rest] d show ?case by auto
qed

lemma methodOperationIds_succeeds:
  "(\<exists>ids. methodOperationIds e ms acc = Inr ids) \<longleftrightarrow>
     (\<forall>m \<in> set ms. \<exists>d x. js_get e m = Inr d \<and> js_get d ''operationId'' = Inr x)"
proof (induction ms arbitrary: acc)
  case Nil
  then show ?case by simp
next
  case (Cons m ms)
  show ?case
  proof (cases "js_get e m")
    case (Inl a)
    then show ?thesis by auto
  next
    case (Inr d)
    show ?thesis
    proof (cases "js_get d ''operationId''")
      case (Inl a)
      with Inr show ?thesis by auto
    next
      case x: (Inr x)
      with Inr Cons.IH [of "acc @ [x]"] show ?thesis by simp
    qed
  qed
qed

lemma pathOperationIds_set:
  "pathOperationIds sp pks acc = Inr ids \<Longrightarrow>
     set ids = set acc \<union> {x. \<exists>pk \<in> set pks. operationIdAt sp pk x}"
proof (induction pks arbitrary: acc)
  case Nil
  then show ?case by simp
next
  case (Cons pk pks)
  from Cons.prems obtain e ms acc' where e: "js_get sp pk = Inr e" "js_keys e = Inr ms"
    and inner: "methodOperationIds e ms acc = Inr acc'"
    and rest: "pathOperationIds sp pks acc' = Inr ids"
    by (auto simp: bindE_def split: sum.splits)
  have "set acc' = set acc \<union> {x. operationIdAt sp pk x}"
    using methodOperationIds_set [OF inner] e by (auto simp: operationIdAt_def)
  with Cons.IH [OF rest] show ?case by auto
qed

lemma pathOperationIds_succeeds:
  "(\<exists>ids. pathOperationIds sp pks acc = Inr ids) \<longleftrightarrow> (\<forall>pk \<in> set pks. pathReadable sp pk)"
proof (induction pks arbitrary: acc)
  case Nil
  then show ?case by simp
next
  case (Cons pk pks)
  show ?case
  proof (cases "pathReadable sp pk")
    case True
    then obtain e ms where e: "js_get sp pk = Inr e" "js_keys e = Inr ms"
      and all: "\<forall>m \<in> set ms. \<exists>d x. js_get e m = Inr d \<and> js_get d ''operationId'' = Inr x"
      by (auto simp: pathReadable_def)
    from all obtain acc' where "methodOperationIds e ms acc = Inr acc'"
      using methodOperationIds_succeeds [of e ms acc] by blast
    with e True Cons.IH [of acc'] show ?thesis by simp
  next
    case False
    have "\<not> (\<exists>ids. pathOperationIds sp (pk # pks) acc = Inr ids)"
    proof
      assume "\<exists>ids. pathOperationIds sp (pk # pks) acc = Inr ids"
      then obtain ids e ms acc' where e: "js_get sp pk = Inr e" "js_keys e = Inr ms"
        and inner: "methodOperationIds e ms acc = Inr acc'"
        by (auto simp: bindE_def split: sum.splits)
      then have "pathReadable sp pk"
        using methodOperationIds_succeeds [of e ms acc] by (auto simp: pathReadable_def)
      with False show False by simp
    qed
    with False show ?thesis by auto
  qed
qed

lemma operationIdAt_cong:
  "js_get sp pk = js_get sp' pk \<Longrightarrow> operationIdAt sp pk x = operationIdAt sp' pk x"
  by (simp add: operationIdAt_def)

lemma pathReadable_cong:
  "js_get sp pk = js_get sp' pk \<Longrightarrow> pathReadable sp pk = pathReadable sp' pk"
  by (simp add: pathReadable_def)

lemma synthesized_readable:
  "js_get sp pk = Inr (synthesized m ident s) \<Longrightarrow> pathReadable sp pk \<and> operationIdAt sp pk ident"
  by (simp add: pathReadable_def operationIdAt_def synthesized_def)

lemma wellFormedPaths_readable:
  assumes "wellFormedPaths ps" and "requestPathKey \<in> fst ` set ps"
  shows "pathReadable (JObj Plain ps) requestPathKey"
proof -
  from assms(2) obtain requestPath where found: "map_of ps requestPathKey = Some requestPath"
    by (cases "map_of ps requestPathKey") (auto simp: map_of_eq_None_iff)
  then have "(requestPathKey, requestPath) \<in> set ps"
    by (rule map_of_SomeD)
  with assms(1) obtain kd operations where requestPath: "requestPath = JObj kd operations"
    and operations: "\<forall>requestData \<in> set operations.
                       snd requestData \<noteq> JNull \<and> snd requestData \<noteq> JUndefined"
    by (cases requestPath) (auto simp: wellFormedPaths_def list_all_iff)
  have "\<exists>requestData x. js_get requestPath m = Inr requestData
          \<and> js_get requestData ''operationId'' = Inr x"
    if "m \<in> fst ` set operations" for m
  proof -
    from that obtain requestData where
      requestData: "map_of operations m = Some requestData"
      by (cases "map_of operations m") (auto simp: map_of_eq_None_iff)
    then have "(m, requestData) \<in> set operations"
      by (rule map_of_SomeD)
    with operations have "requestData \<noteq> JNull \<and> requestData \<noteq> JUndefined"
      by auto
    then have "\<exists>x. js_get requestData ''operationId'' = Inr x"
      by (cases requestData) auto
    with requestData requestPath show ?thesis by simp
  qed
  with found requestPath show ?thesis
    by (simp add: pathReadable_def)
qed

lemma wellFormedPaths_scanned:
  assumes "wellFormedPaths ps"
  shows "\<exists>operationsIds. collectOperationIds (JObj Plain ps) = Inr operationsIds"
  using pathOperationIds_succeeds [of "JObj Plain ps" "map fst ps" "[]"]
    wellFormedPaths_readable [OF assms]
  by (simp add: collectOperationIds_def)

lemma merge_covers_scanned:
  assumes "collectOperationIds (JObj Plain ps) = Inr operationsIds"
    and "js_keys endpointMap = Inr keys"
    and "\<forall>k \<in> set keys. JStr k \<notin> set operationsIds \<longrightarrow> wellFormedEntry endpointMap k"
    and "distinct (map (entryPathKey endpointMap)
           (filter (\<lambda>k. JStr k \<notin> set operationsIds) keys))"
    and "set (map (entryPathKey endpointMap) (filter (\<lambda>k. JStr k \<notin> set operationsIds) keys))
           \<inter> set (map fst ps) = {}"
  shows "\<exists>schemaPaths' w' ids.
           merge env (JObj Plain ps) endpointMap w = (Inr schemaPaths', w')
         \<and> collectOperationIds schemaPaths' = Inr ids
         \<and> (\<forall>k \<in> set keys. JStr k \<in> set ids)"
proof -
  let ?sp = "JObj Plain ps"
  let ?new = "set (map (entryPathKey endpointMap)
                 (filter (\<lambda>k. JStr k \<notin> set operationsIds) keys))"
  have disj: "?new \<inter> fst ` set ps = {}" using assms(5) by simp
  from mergeEntries_invariant [OF assms(2) assms(3) assms(4) disj, of env w]
  obtain qs' w' where
    inv: "mergeEntries env endpointMap operationsIds keys (JObj Plain ps) w = (Inr (JObj Plain qs'), w')
          \<and> fst ` set qs' = fst ` set ps \<union> ?new
          \<and> (\<forall>pk \<in> fst ` set ps. map_of qs' pk = map_of ps pk)
          \<and> (\<forall>k \<in> set keys. JStr k \<notin> set operationsIds \<longrightarrow>
                (\<exists>m s. map_of qs' (entryPathKey endpointMap k) = Some (synthesized m (JStr k) s)))"
    by (elim exE) (rule that)
  note run = inv [THEN conjunct1]
  note keys' = inv [THEN conjunct2, THEN conjunct1]
  note old = inv [THEN conjunct2, THEN conjunct2, THEN conjunct1]
  note new = inv [THEN conjunct2, THEN conjunct2, THEN conjunct2]
  let ?sp' = "JObj Plain qs'"
  have merged: "merge env ?sp endpointMap w = (Inr ?sp', w')"
    using assms(1,2) run by (simp add: merge_def)
  have orig: "pathOperationIds ?sp (map fst ps) [] = Inr operationsIds"
    using assms(1) by (simp add: collectOperationIds_def)
  have same: "js_get ?sp' pk = js_get ?sp pk" if "pk \<in> fst ` set ps" for pk
    using old [rule_format, OF that] by simp
  have synth: "\<exists>m s. js_get ?sp' (entryPathKey endpointMap k) = Inr (synthesized m (JStr k) s)"
    if "k \<in> set keys" "JStr k \<notin> set operationsIds" for k
  proof -
    from new [rule_format, OF that] obtain m s where
      "map_of qs' (entryPathKey endpointMap k) = Some (synthesized m (JStr k) s)" by blast
    then show ?thesis by auto
  qed
  have readable: "pathReadable ?sp' pk" if "pk \<in> set (map fst qs')" for pk
  proof -
    from that keys' have "pk \<in> fst ` set ps \<or> pk \<in> ?new" by auto
    then show ?thesis
    proof
      assume a: "pk \<in> fst ` set ps"
      then have "pathReadable ?sp pk"
        using pathOperationIds_succeeds [of ?sp "map fst ps" "[]"] orig by auto
      then show ?thesis using pathReadable_cong [OF same [OF a]] by simp
    next
      assume "pk \<in> ?new"
      then obtain k where k: "k \<in> set keys" "JStr k \<notin> set operationsIds"
        and pk: "pk = entryPathKey endpointMap k" by auto
      from synth [OF k] show ?thesis
        unfolding pk using synthesized_readable by blast
    qed
  qed
  then obtain ids where ids: "pathOperationIds ?sp' (map fst qs') [] = Inr ids"
    using pathOperationIds_succeeds [of ?sp' "map fst qs'" "[]"] by blast
  then have collected: "collectOperationIds ?sp' = Inr ids"
    by (simp add: collectOperationIds_def)
  have member: "x \<in> set ids" if "pk \<in> fst ` set qs'" "operationIdAt ?sp' pk x" for pk x
    using pathOperationIds_set [OF ids] that by auto
  have "JStr k \<in> set ids" if k: "k \<in> set keys" for k
  proof (cases "JStr k \<in> set operationsIds")
    case True
    then obtain pk where pk: "pk \<in> fst ` set ps" "operationIdAt ?sp pk (JStr k)"
      using pathOperationIds_set [OF orig] by auto
    then have "operationIdAt ?sp' pk (JStr k)"
      using operationIdAt_cong [OF same [OF pk(1)]] by simp
    moreover have "pk \<in> fst ` set qs'" using pk(1) keys' by blast
    ultimately show ?thesis by (rule member [rotated])
  next
    case False
    from synth [OF k False] have "operationIdAt ?sp' (entryPathKey endpointMap k) (JStr k)"
      using synthesized_readable by blast
    moreover have "entryPathKey endpointMap k \<in> fst ` set qs'"
      using k False keys' by auto
    ultimately show ?thesis by (rule member [rotated])
  qed
  with merged collected show ?thesis by blast
qed

text \<open>
  C1, as the code has it. Let every path entry of the schema be a mapping of methods to
  operations none of which is \<^verbatim>\<open>null\<close>. Then the scan of lines 69 to 75 completes with
  the operation ids of the schema. Let moreover the registry entries whose operation id
  is not among them be well formed (method and URL are strings, \<^verbatim>\<open>id\<close> is the entry's
  key, the path key is not \<^verbatim>\<open>__proto__\<close>), and let their path keys be pairwise distinct
  and distinct from the path keys of the schema. Then the merge completes, and every
  operation id of the registry is the \<^verbatim>\<open>operationId\<close> of some path and method of the
  merged paths.
\<close>

theorem merge_covers_registry:
  assumes "wellFormedPaths ps"
    and "js_keys endpointMap = Inr keys"
  shows "\<exists>operationsIds.
           collectOperationIds (JObj Plain ps) = Inr operationsIds
         \<and> ((\<forall>k \<in> set keys. JStr k \<notin> set operationsIds \<longrightarrow> wellFormedEntry endpointMap k)
              \<longrightarrow> distinct (map (entryPathKey endpointMap)
                     (filter (\<lambda>k. JStr k \<notin> set operationsIds) keys))
              \<longrightarrow> set (map (entryPathKey endpointMap)
                     (filter (\<lambda>k. JStr k \<notin> set operationsIds) keys))
                     \<inter> set (map fst ps) = {}
              \<longrightarrow> (\<exists>schemaPaths' w' ids.
                     merge env (JObj Plain ps) endpointMap w = (Inr schemaPaths', w')
                   \<and> collectOperationIds schemaPaths' = Inr ids
                   \<and> (\<forall>k \<in> set keys. JStr k \<in> set ids)))"
proof -
  from wellFormedPaths_scanned [OF assms(1)] obtain operationsIds where
    scanned: "collectOperationIds (JObj Plain ps) = Inr operationsIds"
    by blast
  show ?thesis
    apply (rule exI [of _ operationsIds])
    apply (rule conjI [OF scanned])
    apply (intro impI)
    apply (rule merge_covers_scanned [OF scanned assms(2)])
      apply assumption+
    done
qed

theorem merge_covers_registry_witness:
  \<open>\<exists>schemaPaths' w' ids.
      merge (sample_env [(''https://occ.test/ccstoreui/v1/ping'', ''{"ok":true}'')])
        (JObj Plain [(''/items'', JObj Plain [(''get'', sample_operation ''listItems'' (JObj Plain []))])])
        (JObj Plain
          [(''listItems'', sample_entry ''listItems'' ''GET'' ''/ccstoreui/v1/items''),
           (''getPing'', sample_entry ''getPing'' ''GET'' ''/ccstoreui/v1/ping'')])
        fresh = (Inr schemaPaths', w')
    \<and> collectOperationIds schemaPaths' = Inr ids
    \<and> JStr ''listItems'' \<in> set ids \<and> JStr ''getPing'' \<in> set ids\<close>
proof -
  let ?ps = "[(''/items'', JObj Plain [(''get'', sample_operation ''listItems'' (JObj Plain []))])]"
  let ?endpointMap = "JObj Plain
          [(''listItems'', sample_entry ''listItems'' ''GET'' ''/ccstoreui/v1/items''),
           (''getPing'', sample_entry ''getPing'' ''GET'' ''/ccstoreui/v1/ping'')]"
  have paths: "wellFormedPaths ?ps"
    by (simp add: wellFormedPaths_def sample_operation_def)
  have keys: "js_keys ?endpointMap = Inr [''listItems'', ''getPing'']"
    by simp
  have scan: "collectOperationIds (JObj Plain ?ps) = Inr [JStr ''listItems'']"
    by (simp add: collectOperationIds_def sample_operation_def)
  from merge_covers_registry [OF paths keys,
      of \<open>sample_env [(''https://occ.test/ccstoreui/v1/ping'', ''{"ok":true}'')]\<close> fresh]
  show ?thesis
    unfolding scan
    by (simp add: wellFormedEntry_def entryPathKey_def sample_entry_def)
qed

text \<open>
  The claim as stated fails when an absent entry shares its path key and method with
  another operation: a path holds one operation for a method, the assignment of line 93
  puts the later entry there, be the earlier one an absent entry too (first run below)
  or an operation of the schema (second run), and the operation id that was there is in
  no path of the merged schema. The assignment replaces the methods other than the
  entry's as well, which is why the theorem asks for distinct path keys.
\<close>

theorem merge_drops_operation_counterexample:
  "js_keys (JObj Plain
      [(''getOrder'', sample_entry ''getOrder'' ''GET'' ''/ccstoreui/v1/orders/{}''),
       (''fetchOrder'', sample_entry ''fetchOrder'' ''GET'' ''/ccstoreui/v1/orders/{}'')])
     = Inr [''getOrder'', ''fetchOrder'']
   \<and> bindE (fst (merge (sample_env []) (JObj Plain [])
        (JObj Plain
          [(''getOrder'', sample_entry ''getOrder'' ''GET'' ''/ccstoreui/v1/orders/{}''),
           (''fetchOrder'', sample_entry ''fetchOrder'' ''GET'' ''/ccstoreui/v1/orders/{}'')])
        fresh)) collectOperationIds
     = Inr [JStr ''fetchOrder'']
   \<and> collectOperationIds
        (JObj Plain [(''/orders/{}'', JObj Plain
           [(''get'', sample_operation ''getOrder'' (JObj Plain []))])])
     = Inr [JStr ''getOrder'']
   \<and> bindE (fst (merge (sample_env [])
        (JObj Plain [(''/orders/{}'', JObj Plain
           [(''get'', sample_operation ''getOrder'' (JObj Plain []))])])
        (JObj Plain
          [(''getOrder'', sample_entry ''getOrder'' ''GET'' ''/ccstoreui/v1/orders/{}''),
           (''fetchOrder'', sample_entry ''fetchOrder'' ''GET'' ''/ccstoreui/v1/orders/{}'')])
        fresh)) collectOperationIds
     = Inr [JStr ''fetchOrder'']"
  by (simp add: merge_def collectOperationIds_def mergeEntry_def fetchSample_def
      js_ToString_def lower_char_def synthesized_def sample_entry_def sample_operation_def
      obj_put_def is_index_def is_digit_def io_eval bnd_fetchSample)

section \<open>The fixture materializer\<close>

subsection \<open>The content type\<close>

text \<open>
  C2, where the code departs from it. When the response declares examples whose first
  media type is not in the list of web MIME types while a later one is, the selected
  content type is the first declared type, which is not in the list: line 163 takes
  \<^verbatim>\<open>contentTypeList[0]\<close> of the list of all declared types, which line 159 replaces only
  when no declared type is in the list.
\<close>

theorem unlisted_first_type_selected:
  assumes "js_get response ''examples'' = Inr examples"
    and "truthy examples"
    and "js_keys examples = Inr (first # rest)"
    and "first \<notin> set (webMIMETypes env)"
    and "listed \<in> set rest"
    and "listed \<in> set (webMIMETypes env)"
  shows "\<exists>responseData. js_get examples first = Inr responseData
           \<and> selectExample env response = Inr (first, responseData)"
proof -
  obtain responseData where get: "js_get examples first = Inr responseData"
    using js_keys_get [OF assms(3)] by blast
  have "list_ex (\<lambda>mimeType. mimeType \<in> set (webMIMETypes env)) (first # rest)"
    using assms(5,6) by (auto simp: list_ex_iff)
  then have "selectContentType (webMIMETypes env) (first # rest) = first"
    by (simp add: selectContentType_def)
  with assms(1,2,3) get have "selectExample env response = Inr (first, responseData)"
    by (simp add: selectExample_def)
  with get show ?thesis by blast
qed

theorem unlisted_first_type_selected_witness:
  "selectExample (sample_env [])
      (sample_response
         (JObj Plain [(''text/x-other'', JStr ''ok''), (''text/html'', JStr ''<p>ok</p>'')]))
     = Inr (''text/x-other'', JStr ''ok'')
   \<and> ''text/x-other'' \<notin> set (webMIMETypes (sample_env []))
   \<and> ''text/html'' \<in> set (webMIMETypes (sample_env []))"
proof -
  let ?examples =
    "JObj Plain [(''text/x-other'', JStr ''ok''), (''text/html'', JStr ''<p>ok</p>'')]"
  have ex: "js_get (sample_response ?examples) ''examples'' = Inr ?examples"
    by (simp add: sample_response_def)
  have truthy: "truthy ?examples"
    by simp
  have declared: "js_keys ?examples = Inr [''text/x-other'', ''text/html'']"
    by simp
  have unlisted: "''text/x-other'' \<notin> set (webMIMETypes (sample_env []))"
    by (simp add: sample_env_def)
  have later: "''text/html'' \<in> set [''text/html'']"
    by simp
  have listed: "''text/html'' \<in> set (webMIMETypes (sample_env []))"
    by (simp add: sample_env_def)
  from unlisted_first_type_selected [OF ex truthy declared unlisted later listed]
  have "selectExample (sample_env []) (sample_response ?examples)
          = Inr (''text/x-other'', JStr ''ok'')"
    by simp
  with unlisted listed show ?thesis by simp
qed

subsection \<open>The data file\<close>

text \<open>For the responses whose first declared type is the preferred one, lines 149 to 166
  find the sample content that the response declares.\<close>

lemma selectExample_declared:
  assumes "declaredExamples response = Some examples"
  shows "selectExample env response =
           Inr (selectContentType (webMIMETypes env) (map fst examples),
                case map_of examples (selectContentType (webMIMETypes env) (map fst examples)) of
                  None \<Rightarrow> JUndefined | Some responseData \<Rightarrow> responseData)"
proof -
  from assms obtain kd attributes where response: "response = JObj kd attributes"
    by (cases response) (auto simp: declaredExamples_def)
  show ?thesis
  proof (cases "map_of attributes ''examples''")
    case None
    with assms response have
      "examples = [(''application/json'', JObj Plain [(''sample'', JBool True)])]"
      by (simp add: declaredExamples_def)
    with None response show ?thesis
      by (simp add: selectExample_def map_of_obj_put)
  next
    case (Some v)
    with assms response obtain k where "v = JObj k examples"
      by (cases v) (auto simp: declaredExamples_def)
    with Some response show ?thesis
      by (simp add: selectExample_def Let_def)
  qed
qed

lemma selectContentType_preferred:
  assumes "firstTypePreferred mimeTypes response"
    and "declaredExamples response = Some examples"
  shows "selectContentType mimeTypes (map fst examples)
           = preferredContentType mimeTypes (map fst examples)"
proof (cases examples)
  case Nil
  then show ?thesis by (simp add: selectContentType_def preferredContentType_def)
next
  case (Cons example others)
  with assms have
    "fst example \<in> set mimeTypes \<or> (\<forall>other \<in> set others. fst other \<notin> set mimeTypes)"
    by (simp add: firstTypePreferred_def list_all_iff)
  then show ?thesis
  proof
    assume "fst example \<in> set mimeTypes"
    with Cons show ?thesis
      by (simp add: selectContentType_def preferredContentType_def)
  next
    assume none: "\<forall>other \<in> set others. fst other \<notin> set mimeTypes"
    show ?thesis
    proof (cases "fst example \<in> set mimeTypes")
      case True
      with Cons show ?thesis
        by (simp add: selectContentType_def preferredContentType_def)
    next
      case False
      with none have "filter (\<lambda>mimeType. mimeType \<in> set mimeTypes) (map fst examples) = []"
        using Cons by (auto simp: filter_empty_conv)
      moreover from False none have
        "\<not> list_ex (\<lambda>mimeType. mimeType \<in> set mimeTypes) (map fst examples)"
        using Cons by (auto simp: list_ex_iff)
      ultimately show ?thesis
        by (simp add: selectContentType_def preferredContentType_def)
    qed
  qed
qed

lemma hadSampleContent_writesData:
  assumes "js_get responses statusCode = Inr response"
    and "firstTypePreferred (webMIMETypes env) response"
    and "hadSampleContent (webMIMETypes env) response"
  shows "writesData env responses statusCode"
proof -
  from assms(3) obtain examples where declared: "declaredExamples response = Some examples"
    by (auto simp: hadSampleContent_def split: option.splits)
  from assms(3) declared show ?thesis
    using selectExample_declared [OF declared, of env]
      selectContentType_preferred [OF assms(2) declared]
    by (auto simp: writesData_def hadSampleContent_def assms(1) split: option.splits)
qed

lemma preferredContentType_declared:
  assumes "map_of examples (preferredContentType mimeTypes (map fst examples)) = None"
  shows "selectContentType mimeTypes (map fst examples) = ''application/json''
       \<and> preferredContentType mimeTypes (map fst examples) = ''application/json''"
proof (cases "filter (\<lambda>mimeType. mimeType \<in> set mimeTypes) (map fst examples)")
  case Nil
  then have "\<not> list_ex (\<lambda>mimeType. mimeType \<in> set mimeTypes) (map fst examples)"
    by (auto simp: filter_empty_conv list_ex_iff)
  with Nil show ?thesis
    by (simp add: selectContentType_def preferredContentType_def)
next
  case (Cons mimeType rest)
  then have "mimeType \<in> set (filter (\<lambda>mimeType. mimeType \<in> set mimeTypes) (map fst examples))"
    by simp
  then have "mimeType \<in> fst ` set examples"
    by auto
  then have "map_of examples mimeType \<noteq> None"
    by (simp add: map_of_eq_None_iff)
  with assms Cons show ?thesis
    by (simp add: preferredContentType_def)
qed

lemma hadNoSampleContent_writesData:
  assumes "js_get responses statusCode = Inr response"
    and "hadNoSampleContent (webMIMETypes env) response"
  shows "\<not> writesData env responses statusCode"
proof -
  from assms(2) obtain examples where declared: "declaredExamples response = Some examples"
    and none: "map_of examples (preferredContentType (webMIMETypes env) (map fst examples)) = None"
    by (auto simp: hadNoSampleContent_def split: option.splits)
  from preferredContentType_declared [OF none] none show ?thesis
    using selectExample_declared [OF declared, of env]
    by (simp add: writesData_def assms(1))
qed

lemma writeData_files:
  assumes "writeData env registryJSON requestId dataPath contentType responseData w = (Inr headers, w')"
  shows "(truthy responseData \<longrightarrow> (\<exists>d. files w' = (files w)(dataPath \<mapsto> d)))
       \<and> (\<not> truthy responseData \<longrightarrow> files w' = files w)"
  using assms
  by (auto simp: writeData_def Let_def throw_def bnd_Inr_iff ret_Inr_iff outputJSON_Inr_iff
      split: option.splits if_splits)

lemma materializeStatus_files:
  assumes "materializeStatus env registryJSON requestData method requestId responseMethodPath
             responses statusCode w = (Inr u, w')"
    and "statusCode \<noteq> ''default''"
  shows "\<exists>parameters headers d.
           files w' =
             ((if writesData env responses statusCode
               then (files w)(path_join env (path_join env responseMethodPath ''default'') ''data.json'' \<mapsto> d)
               else files w))
             (path_join env (path_join env responseMethodPath ''default'') ''descriptor.json'' \<mapsto>
                descriptor parameters method
                  (path_relative env (path_join env responseMethodPath ''default'')
                     (path_join env (path_join env responseMethodPath ''default'') ''data.json''))
                  statusCode headers)"
proof -
  let ?responsePath = "path_join env responseMethodPath ''default''"
  from assms obtain parameters response contentType responseData headers w1 w2 where
    "js_get requestData ''parameters'' = Inr parameters"
    and w1: "w1 = w\<lparr>dirs := insert ?responsePath (dirs w)\<rparr>"
    and resp: "js_get responses statusCode = Inr response"
    and sel: "selectExample env response = Inr (contentType, responseData)"
    and wd: "writeData env registryJSON requestId (path_join env ?responsePath ''data.json'')
               contentType responseData w1 = (Inr headers, w2)"
    and out: "w' = w2\<lparr>files := (files w2)(path_join env ?responsePath ''descriptor.json'' \<mapsto>
                descriptor parameters method
                  (path_relative env ?responsePath (path_join env ?responsePath ''data.json''))
                  statusCode headers)\<rparr>"
    by (auto simp: materializeStatus_def Let_def bnd_Inr_iff lift_Inr_iff ensureDir_Inr_iff
        outputJSON_Inr_iff split: prod.splits)
  have has: "writesData env responses statusCode = truthy responseData"
    using resp sel by (simp add: writesData_def bindE_def)
  from writeData_files [OF wd] w1 have files2:
    "(truthy responseData \<longrightarrow> (\<exists>d. files w2 = (files w)(path_join env ?responsePath ''data.json'' \<mapsto> d)))
       \<and> (\<not> truthy responseData \<longrightarrow> files w2 = files w)"
    by simp
  show ?thesis
  proof (cases "truthy responseData")
    case True
    with files2 obtain d where
      "files w2 = (files w)(path_join env ?responsePath ''data.json'' \<mapsto> d)" by blast
    with True show ?thesis
      unfolding has out by (intro exI [of _ parameters] exI [of _ headers] exI [of _ d]) simp
  next
    case False
    with files2 have "files w2 = files w" by blast
    with False show ?thesis
      unfolding has out by (intro exI [of _ parameters] exI [of _ headers] exI [of _ JNull]) simp
  qed
qed

lemma materializeStatuses_files:
  assumes "materializeStatuses env registryJSON requestData method requestId responseMethodPath
             responses statusCodes w = (Inr u, w')"
    and "responsePath = path_join env responseMethodPath ''default''"
    and "dataPath = path_join env responsePath ''data.json''"
    and "dataDescriptorPath = path_join env responsePath ''descriptor.json''"
    and "dataPath \<noteq> dataDescriptorPath"
  shows "(files w dataPath \<noteq> None
            \<or> (\<exists>statusCode \<in> set statusCodes. statusCode \<noteq> ''default''
                  \<and> writesData env responses statusCode)
          \<longrightarrow> files w' dataPath \<noteq> None)
       \<and> ((\<forall>statusCode \<in> set statusCodes. statusCode \<noteq> ''default''
               \<longrightarrow> \<not> writesData env responses statusCode)
          \<longrightarrow> files w' dataPath = files w dataPath)
       \<and> ((\<exists>parameters statusCode headers. files w dataDescriptorPath =
               Some (descriptor parameters method (path_relative env responsePath dataPath)
                       statusCode headers))
            \<or> (\<exists>statusCode \<in> set statusCodes. statusCode \<noteq> ''default'')
          \<longrightarrow> (\<exists>parameters statusCode headers. files w' dataDescriptorPath =
               Some (descriptor parameters method (path_relative env responsePath dataPath)
                       statusCode headers)))"
  using assms(1)
proof (induction statusCodes arbitrary: w)
  case Nil
  then show ?case by (simp add: ret_Inr_iff)
next
  case (Cons statusCode statusCodes)
  from Cons.prems obtain w1 where
    step: "materializeStatus env registryJSON requestData method requestId responseMethodPath
             responses statusCode w = (Inr (), w1)"
    and rest: "materializeStatuses env registryJSON requestData method requestId
             responseMethodPath responses statusCodes w1 = (Inr u, w')"
    by (auto simp: bnd_Inr_iff)
  note IH = Cons.IH [OF rest]
  show ?case
  proof (cases "statusCode = ''default''")
    case True
    with step have "w1 = w" by (simp add: materializeStatus_def ret_Inr_iff)
    with IH True show ?thesis by simp
  next
    case False
    from materializeStatus_files [OF step False] obtain parameters headers d where
      f1: "files w1 =
             ((if writesData env responses statusCode
               then (files w)(dataPath \<mapsto> d) else files w))
             (dataDescriptorPath \<mapsto>
                descriptor parameters method (path_relative env responsePath dataPath)
                  statusCode headers)"
      unfolding assms(2,3,4) by blast
    have data1: "files w1 dataPath =
                   (if writesData env responses statusCode then Some d
                    else files w dataPath)"
      using assms(5) by (simp add: f1)
    have desc1: "files w1 dataDescriptorPath =
                   Some (descriptor parameters method (path_relative env responsePath dataPath)
                     statusCode headers)"
      by (simp add: f1)
    have a: "files w dataPath \<noteq> None
            \<or> (\<exists>sc \<in> set (statusCode # statusCodes). sc \<noteq> ''default''
                  \<and> writesData env responses sc)
          \<longrightarrow> files w' dataPath \<noteq> None"
      using IH [THEN conjunct1] data1 by auto
    have b: "(\<forall>sc \<in> set (statusCode # statusCodes). sc \<noteq> ''default''
               \<longrightarrow> \<not> writesData env responses sc)
          \<longrightarrow> files w' dataPath = files w dataPath"
      using IH [THEN conjunct2, THEN conjunct1] data1 False by auto
    have c: "\<exists>parameters statusCode headers. files w' dataDescriptorPath =
               Some (descriptor parameters method (path_relative env responsePath dataPath)
                       statusCode headers)"
      using IH [THEN conjunct2, THEN conjunct2] desc1 by blast
    from a b c show ?thesis by blast
  qed
qed

text \<open>
  C4, as the code has it. All status codes of an operation share the directory
  \<^verbatim>\<open>default\<close>, and every descriptor names \<^verbatim>\<open>data.json\<close> in it. After the status codes of
  an operation are materialized: the data file exists when the response of some status
  code other than \<^verbatim>\<open>default\<close> had sample content and its first declared media type is
  the preferred one, in particular the response a descriptor was written for; it is what
  it was before (absent in a fresh tree) when the response of every status code other
  than \<^verbatim>\<open>default\<close> had no sample content; and the descriptor file holds a descriptor
  whose \<^verbatim>\<open>dataPath\<close> is the path of the data file relative to the directory.
\<close>

theorem data_file_of_descriptor:
  assumes "materializeStatuses env registryJSON requestData method requestId responseMethodPath
             responses statusCodes w = (Inr u, w')"
    and "responsePath = path_join env responseMethodPath ''default''"
    and "dataPath = path_join env responsePath ''data.json''"
    and "dataDescriptorPath = path_join env responsePath ''descriptor.json''"
    and "dataPath \<noteq> dataDescriptorPath"
  shows "(\<forall>statusCode \<in> set statusCodes. statusCode \<noteq> ''default'' \<longrightarrow>
            (\<forall>response. js_get responses statusCode = Inr response
               \<longrightarrow> firstTypePreferred (webMIMETypes env) response
               \<longrightarrow> hadSampleContent (webMIMETypes env) response
               \<longrightarrow> files w' dataPath \<noteq> None))
       \<and> ((\<forall>statusCode \<in> set statusCodes. statusCode \<noteq> ''default'' \<longrightarrow>
              (\<forall>response. js_get responses statusCode = Inr response
                 \<longrightarrow> hadNoSampleContent (webMIMETypes env) response))
          \<longrightarrow> files w' dataPath = files w dataPath)
       \<and> ((\<exists>statusCode \<in> set statusCodes. statusCode \<noteq> ''default'')
          \<longrightarrow> (\<exists>parameters statusCode headers. files w' dataDescriptorPath =
               Some (descriptor parameters method (path_relative env responsePath dataPath)
                       statusCode headers)))"
proof -
  note files = materializeStatuses_files [OF assms]
  have exists: "files w' dataPath \<noteq> None"
    if "statusCode \<in> set statusCodes" "statusCode \<noteq> ''default''"
      "js_get responses statusCode = Inr response"
      "firstTypePreferred (webMIMETypes env) response"
      "hadSampleContent (webMIMETypes env) response"
    for statusCode response
    using files [THEN conjunct1] hadSampleContent_writesData [OF that(3,4,5)] that(1,2)
    by blast
  have unchanged: "files w' dataPath = files w dataPath"
    if none: "\<forall>statusCode \<in> set statusCodes. statusCode \<noteq> ''default'' \<longrightarrow>
              (\<forall>response. js_get responses statusCode = Inr response
                 \<longrightarrow> hadNoSampleContent (webMIMETypes env) response)"
  proof -
    have "\<not> writesData env responses statusCode"
      if sc: "statusCode \<in> set statusCodes" "statusCode \<noteq> ''default''" for statusCode
    proof (cases "js_get responses statusCode")
      case (Inl e)
      then show ?thesis by (simp add: writesData_def)
    next
      case (Inr response)
      with none sc have "hadNoSampleContent (webMIMETypes env) response" by blast
      with Inr show ?thesis by (rule hadNoSampleContent_writesData)
    qed
    with files [THEN conjunct2, THEN conjunct1] show ?thesis by blast
  qed
  from exists unchanged files [THEN conjunct2, THEN conjunct2] show ?thesis
    by blast
qed

theorem data_file_of_descriptor_witness:
  "files (snd (materializeStatuses (sample_env []) (JObj Plain [])
       (sample_operation ''getPing'' (JObj Plain [])) ''get'' (JStr ''getPing'')
       ''/api/responses/getPing''
       (JObj Plain [(''200'',
          sample_response (JObj Plain [(''application/json'', JObj Plain [(''ok'', JBool True)])]))])
       [''200''] fresh))
     ''/api/responses/getPing/default/data.json'' \<noteq> None
   \<and> files (snd (materializeStatuses (sample_env []) (JObj Plain [])
       (sample_operation ''getPing'' (JObj Plain [])) ''get'' (JStr ''getPing'')
       ''/api/responses/getPing''
       (JObj Plain [(''200'', sample_response (JObj Plain [(''text/x-other'', JStr ''ok'')]))])
       [''200''] fresh))
     ''/api/responses/getPing/default/data.json'' = None"
proof -
  let ?responses = "JObj Plain [(''200'',
          sample_response (JObj Plain [(''application/json'', JObj Plain [(''ok'', JBool True)])]))]"
  let ?run = "materializeStatuses (sample_env []) (JObj Plain [])
       (sample_operation ''getPing'' (JObj Plain [])) ''get'' (JStr ''getPing'')
       ''/api/responses/getPing'' ?responses [''200''] fresh"
  let ?bare = "JObj Plain [(''200'', sample_response (JObj Plain [(''text/x-other'', JStr ''ok'')]))]"
  let ?none = "materializeStatuses (sample_env []) (JObj Plain [])
       (sample_operation ''getPing'' (JObj Plain [])) ''get'' (JStr ''getPing'')
       ''/api/responses/getPing'' ?bare [''200''] fresh"
  let ?dataPath = "path_join (sample_env [])
       (path_join (sample_env []) ''/api/responses/getPing'' ''default'') ''data.json''"
  have "fst ?run = Inr ()"
    by (simp add: io_eval sample_eval status_eval)
  then have run: "?run = (Inr (), snd ?run)"
    by (metis prod.collapse)
  have "fst ?none = Inr ()"
    by (simp add: io_eval sample_eval status_eval)
  then have none: "?none = (Inr (), snd ?none)"
    by (metis prod.collapse)
  have paths: "?dataPath
          \<noteq> path_join (sample_env []) (path_join (sample_env []) ''/api/responses/getPing'' ''default'') ''descriptor.json''"
    by (simp add: sample_eval)
  have response: "js_get ?responses ''200'' = Inr (sample_response
          (JObj Plain [(''application/json'', JObj Plain [(''ok'', JBool True)])]))"
    by simp
  have preferred: "firstTypePreferred (webMIMETypes (sample_env [])) (sample_response
          (JObj Plain [(''application/json'', JObj Plain [(''ok'', JBool True)])]))"
    by (simp add: firstTypePreferred_def declaredExamples_def sample_eval)
  have content: "hadSampleContent (webMIMETypes (sample_env [])) (sample_response
          (JObj Plain [(''application/json'', JObj Plain [(''ok'', JBool True)])]))"
    by (simp add: hadSampleContent_def declaredExamples_def preferredContentType_def sample_eval)
  have without: "hadNoSampleContent (webMIMETypes (sample_env []))
          (sample_response (JObj Plain [(''text/x-other'', JStr ''ok'')]))"
    by (simp add: hadNoSampleContent_def declaredExamples_def preferredContentType_def sample_eval)
  have present: "files (snd ?run) ?dataPath \<noteq> None"
    using response preferred content
      data_file_of_descriptor [OF run refl refl refl paths, THEN conjunct1]
    by simp
  have every: "\<forall>statusCode \<in> set [''200'']. statusCode \<noteq> ''default'' \<longrightarrow>
              (\<forall>response. js_get ?bare statusCode = Inr response
                 \<longrightarrow> hadNoSampleContent (webMIMETypes (sample_env [])) response)"
    using without by simp
  have "files (snd ?none) ?dataPath = files fresh ?dataPath"
    by (rule mp [OF data_file_of_descriptor [OF none refl refl refl paths,
            THEN conjunct2, THEN conjunct1] every])
  then have absent: "files (snd ?none) ?dataPath = None"
    by (simp add: fresh_def)
  from present absent show ?thesis by (simp add: sample_env_def sample_join_def)
qed

text \<open>
  The claim as stated fails for an operation with two status codes of which only the
  first had sample content: the descriptor left on disk is the one of the second status
  code, which had none, and the file its \<^verbatim>\<open>dataPath\<close> names exists. It fails as well
  when a data file is there from an earlier run: a status code with no sample content
  leaves it in place.
\<close>

theorem data_file_other_status_counterexample:
  "hadNoSampleContent (webMIMETypes (sample_env [])) (sample_response (JObj Plain []))
   \<and> fst (materializeStatuses (sample_env []) (JObj Plain [])
       (sample_operation ''getItem'' (JObj Plain [])) ''get'' (JStr ''getItem'')
       ''/api/responses/getItem''
       (JObj Plain
         [(''200'', sample_response
             (JObj Plain [(''application/json'', JObj Plain [(''ok'', JBool True)])])),
          (''404'', sample_response (JObj Plain []))])
       [''200'', ''404''] fresh) = Inr ()
   \<and> files (snd (materializeStatuses (sample_env []) (JObj Plain [])
       (sample_operation ''getItem'' (JObj Plain [])) ''get'' (JStr ''getItem'')
       ''/api/responses/getItem''
       (JObj Plain
         [(''200'', sample_response
             (JObj Plain [(''application/json'', JObj Plain [(''ok'', JBool True)])])),
          (''404'', sample_response (JObj Plain []))])
       [''200'', ''404''] fresh)) ''/api/responses/getItem/default/descriptor.json''
     = Some (descriptor JUndefined ''get'' ''data.json'' ''404'' (JObj Plain []))
   \<and> files (snd (materializeStatuses (sample_env []) (JObj Plain [])
       (sample_operation ''getItem'' (JObj Plain [])) ''get'' (JStr ''getItem'')
       ''/api/responses/getItem''
       (JObj Plain
         [(''200'', sample_response
             (JObj Plain [(''application/json'', JObj Plain [(''ok'', JBool True)])])),
          (''404'', sample_response (JObj Plain []))])
       [''200'', ''404''] fresh)) ''/api/responses/getItem/default/data.json''
     = Some (JObj Plain [(''ok'', JBool True)])
   \<and> files (snd (materializeStatuses (sample_env []) (JObj Plain [])
       (sample_operation ''getItem'' (JObj Plain [])) ''get'' (JStr ''getItem'')
       ''/api/responses/getItem''
       (JObj Plain [(''200'', sample_response (JObj Plain []))])
       [''200'']
       (fresh\<lparr>files := [''/api/responses/getItem/default/data.json'' \<mapsto> JStr ''old'']\<rparr>)))
       ''/api/responses/getItem/default/data.json''
     = Some (JStr ''old'')"
  by (simp add: io_eval sample_eval status_eval hadNoSampleContent_def declaredExamples_def
      preferredContentType_def)

subsection \<open>The responses attribute\<close>

lemma keyed_loop:
  fixes loop :: "string list \<Rightarrow> jsval \<Rightarrow> jsval io"
  assumes nil: "\<And>x w. loop [] x w = (Inr x, w)"
    and cons: "\<And>k ks x w. loop (k # ks) x w = bnd (step x k) (loop ks) w"
    and step: "\<And>cur k v w x' w'. step (JObj kd cur) k w = (Inr x', w') \<Longrightarrow>
                 map_of cur k = Some v \<Longrightarrow> R k v \<Longrightarrow>
                 \<exists>v'. x' = JObj kd (replace_value k v' cur) \<and> Q k v v'"
    and "distinct ks"
    and "\<forall>k \<in> set ks. \<exists>v. map_of cur k = Some v \<and> R k v"
    and "loop ks (JObj kd cur) w = (Inr x', w')"
  shows "\<exists>cur'. x' = JObj kd cur'
           \<and> (\<forall>k \<in> set ks. \<forall>v. map_of cur k = Some v \<longrightarrow>
                  (\<exists>v'. map_of cur' k = Some v' \<and> Q k v v'))
           \<and> (\<forall>k. k \<notin> set ks \<longrightarrow> map_of cur' k = map_of cur k)"
  using assms(4,5,6)
proof (induction ks arbitrary: cur w)
  case Nil
  then show ?case by (auto simp: nil)
next
  case (Cons k ks)
  from Cons.prems(3) obtain x1 w1 where
    s1: "step (JObj kd cur) k w = (Inr x1, w1)" and rest: "loop ks x1 w1 = (Inr x', w')"
    by (auto simp: cons bnd_Inr_iff)
  from Cons.prems(2) obtain v where v: "map_of cur k = Some v" "R k v" by auto
  from step [OF s1 v] obtain v' where
    x1: "x1 = JObj kd (replace_value k v' cur)" and q: "Q k v v'" by blast
  define cur1 where "cur1 = replace_value k v' cur"
  have m1: "map_of cur1 = (map_of cur)(k \<mapsto> v')"
    unfolding cur1_def using v(1) by (rule map_of_replace_value_present)
  have d: "distinct ks" and notin: "k \<notin> set ks" using Cons.prems(1) by auto
  have pre: "\<forall>k' \<in> set ks. \<exists>v. map_of cur1 k' = Some v \<and> R k' v"
  proof
    fix k' assume k': "k' \<in> set ks"
    with notin have "k' \<noteq> k" by auto
    with Cons.prems(2) k' show "\<exists>v. map_of cur1 k' = Some v \<and> R k' v"
      by (simp add: m1)
  qed
  have rest1: "loop ks (JObj kd cur1) w1 = (Inr x', w')"
    using rest unfolding x1 cur1_def .
  from Cons.IH [OF d pre rest1] obtain cur' where
    IH: "x' = JObj kd cur'
           \<and> (\<forall>k \<in> set ks. \<forall>v. map_of cur1 k = Some v \<longrightarrow>
                  (\<exists>v'. map_of cur' k = Some v' \<and> Q k v v'))
           \<and> (\<forall>k. k \<notin> set ks \<longrightarrow> map_of cur' k = map_of cur1 k)"
    by (elim exE) (rule that)
  have a: "\<forall>k' \<in> set (k # ks). \<forall>v. map_of cur k' = Some v \<longrightarrow>
                  (\<exists>v'. map_of cur' k' = Some v' \<and> Q k' v v')"
  proof (intro ballI allI impI)
    fix k' u assume k': "k' \<in> set (k # ks)" and u: "map_of cur k' = Some u"
    show "\<exists>v'. map_of cur' k' = Some v' \<and> Q k' u v'"
    proof (cases "k' = k")
      case True
      with notin IH have "map_of cur' k' = map_of cur1 k" by simp
      with True u v q show ?thesis by (simp add: m1)
    next
      case False
      with k' have in_ks: "k' \<in> set ks" by simp
      from False u have "map_of cur1 k' = Some u" by (simp add: m1)
      with IH in_ks show ?thesis by blast
    qed
  qed
  have b: "\<forall>k'. k' \<notin> set (k # ks) \<longrightarrow> map_of cur' k' = map_of cur k'"
    using IH by (simp add: m1)
  from IH a b show ?case by blast
qed

lemma materializeMethod_step:
  assumes "materializeMethod env registryJSON (JObj kd cur) method w = (Inr x', w')"
    and "map_of cur method = Some requestData"
  shows "\<exists>requestData'. x' = JObj kd (replace_value method requestData' cur)
           \<and> js_get requestData' ''responses'' =
               Inr (JStr (path_relative env (apiPath env) (operationDirectory env requestData)))"
proof -
  from assms obtain requestId requestIdText requestData' where
    rid: "js_get requestData ''operationId'' = Inr requestId"
    and conv: "js_ToString env requestId = Inr requestIdText"
    and set: "js_set requestData ''responses''
                 (JStr (path_relative env (apiPath env)
                    (path_join env (responsesPath env) requestIdText)))
              = Inr requestData'"
    and x': "x' = alias_put (JObj kd cur) method requestData'"
    by (auto simp: materializeMethod_def Let_def bnd_Inr_iff lift_Inr_iff ret_Inr_iff)
  from set have "js_get requestData' ''responses'' =
      Inr (JStr (path_relative env (apiPath env)
                    (path_join env (responsesPath env) requestIdText)))"
    by (cases requestData) (auto simp: map_of_obj_put)
  with rid conv x' show ?thesis
    by (intro exI [of _ requestData']) (simp add: operationDirectory_def)
qed

lemma materializeMethods_result:
  assumes "materializeMethods env registryJSON methods (JObj kd mps) w = (Inr x', w')"
    and "distinct methods"
    and "\<forall>method \<in> set methods. \<exists>requestData. map_of mps method = Some requestData"
  shows "\<exists>mps'. x' = JObj kd mps'
           \<and> (\<forall>method \<in> set methods. \<forall>requestData. map_of mps method = Some requestData \<longrightarrow>
                  (\<exists>requestData'. map_of mps' method = Some requestData'
                     \<and> js_get requestData' ''responses'' =
                         Inr (JStr (path_relative env (apiPath env)
                                (operationDirectory env requestData)))))
           \<and> (\<forall>k. k \<notin> set methods \<longrightarrow> map_of mps' k = map_of mps k)"
proof (rule keyed_loop [where loop = "materializeMethods env registryJSON"
      and step = "materializeMethod env registryJSON" and R = "\<lambda>k v. True"
      and Q = "\<lambda>k v v'. js_get v' ''responses'' =
                 Inr (JStr (path_relative env (apiPath env) (operationDirectory env v)))"
      and w = w and w' = w'])
  show "materializeMethods env registryJSON [] x w = (Inr x, w)" for x w
    by (simp add: ret_def)
  show "materializeMethods env registryJSON (k # ks) x w =
          bnd (materializeMethod env registryJSON x k) (materializeMethods env registryJSON ks) w"
    for k ks x w by simp
  show "\<exists>v'. x' = JObj kd (replace_value k v' cur) \<and>
          js_get v' ''responses'' =
            Inr (JStr (path_relative env (apiPath env) (operationDirectory env v)))"
    if "materializeMethod env registryJSON (JObj kd cur) k w = (Inr x', w')"
      and "map_of cur k = Some v" for cur k v w x' w'
    using materializeMethod_step [OF that] .
  show "distinct methods" by (rule assms(2))
  show "\<forall>k \<in> set methods. \<exists>v. map_of mps k = Some v \<and> True" using assms(3) by simp
  show "materializeMethods env registryJSON methods (JObj kd mps) w = (Inr x', w')"
    by (rule assms(1))
qed

lemma materializePath_step:
  assumes "materializePath env registryJSON (JObj kd cur) requestPathKey w = (Inr x', w')"
    and "map_of cur requestPathKey = Some requestPath"
    and "distinctKeys requestPath"
  shows "\<exists>requestPath'. x' = JObj kd (replace_value requestPathKey requestPath' cur)
           \<and> responsesRewritten env requestPath requestPath'"
proof -
  from assms(1,2) obtain methods requestPath' w1 where
    keys: "js_keys requestPath = Inr methods"
    and loop: "materializeMethods env registryJSON methods requestPath w = (Inr requestPath', w1)"
    and x': "x' = JObj kd (replace_value requestPathKey requestPath' cur)"
    by (auto simp: materializePath_def bnd_Inr_iff lift_Inr_iff ret_Inr_iff)
  have "responsesRewritten env requestPath requestPath'"
    unfolding responsesRewritten_def
  proof (intro allI impI)
    fix k mps m requestData
    assume obj: "requestPath = JObj k mps" and m: "map_of mps m = Some requestData"
    from keys obj have methods: "methods = map fst mps" by simp
    from assms(3) obj have d: "distinct methods" by (simp add: distinctKeys_def methods)
    have all: "\<forall>method \<in> set methods. \<exists>requestData. map_of mps method = Some requestData"
      unfolding methods by (metis domD dom_map_of_conv_image_fst set_map)
    from materializeMethods_result [OF loop [unfolded obj] d all] obtain mps' where
      r: "requestPath' = JObj k mps'"
      and each: "\<forall>method \<in> set methods. \<forall>requestData. map_of mps method = Some requestData \<longrightarrow>
                  (\<exists>requestData'. map_of mps' method = Some requestData'
                     \<and> js_get requestData' ''responses'' =
                         Inr (JStr (path_relative env (apiPath env)
                                (operationDirectory env requestData))))"
      by blast
    have "m \<in> set methods"
      unfolding methods using m by (metis domI dom_map_of_conv_image_fst set_map)
    with each m obtain requestData' where
      "map_of mps' m = Some requestData'"
      "js_get requestData' ''responses'' =
         Inr (JStr (path_relative env (apiPath env) (operationDirectory env requestData)))"
      by blast
    then show "bindE (js_get requestPath' m)
                 (\<lambda>requestData'. js_get requestData' ''responses'')
          = Inr (JStr (path_relative env (apiPath env) (operationDirectory env requestData)))"
      by (simp add: r)
  qed
  with x' show ?thesis by blast
qed

text \<open>
  C5, as the code has it. After materialization, the \<^verbatim>\<open>responses\<close> attribute of every
  operation of the schema is the relative path from the schema root to the directory
  \<^verbatim>\<open><responsesRoot>/<operationId>\<close> of line 118, the parent of the directory \<^verbatim>\<open>default\<close>
  that holds the descriptor and the data file.
\<close>

theorem responses_attribute_after_materialize:
  assumes "materialize env registryJSON (JObj kd ps) w = (Inr schemaPaths', w')"
    and "distinct (map fst ps)"
    and "\<forall>entry \<in> set ps. distinctKeys (snd entry)"
    and "map_of ps requestPathKey = Some (JObj k mps)"
    and "map_of mps method = Some requestData"
  shows "bindE (bindE (js_get schemaPaths' requestPathKey)
                  (\<lambda>requestPath'. js_get requestPath' method))
           (\<lambda>requestData'. js_get requestData' ''responses'')
         = Inr (JStr (path_relative env (apiPath env) (operationDirectory env requestData)))"
proof -
  have loop: "materializePaths env registryJSON (map fst ps) (JObj kd ps) w = (Inr schemaPaths', w')"
    using assms(1) by (simp add: materialize_def)
  have pre: "\<forall>pk \<in> set (map fst ps). \<exists>v. map_of ps pk = Some v \<and> distinctKeys v"
  proof
    fix pk assume "pk \<in> set (map fst ps)"
    then obtain v where v: "map_of ps pk = Some v"
      by (metis domD dom_map_of_conv_image_fst set_map)
    then have "(pk, v) \<in> set ps" by (rule map_of_SomeD)
    with assms(3) have "distinctKeys v" by auto
    with v show "\<exists>v. map_of ps pk = Some v \<and> distinctKeys v" by blast
  qed
  have "\<exists>cur'. schemaPaths' = JObj kd cur'
           \<and> (\<forall>pk \<in> set (map fst ps). \<forall>v. map_of ps pk = Some v \<longrightarrow>
                  (\<exists>v'. map_of cur' pk = Some v' \<and> responsesRewritten env v v'))
           \<and> (\<forall>pk. pk \<notin> set (map fst ps) \<longrightarrow> map_of cur' pk = map_of ps pk)"
  proof (rule keyed_loop [where loop = "materializePaths env registryJSON"
      and step = "materializePath env registryJSON" and R = "\<lambda>k v. distinctKeys v"
      and Q = "\<lambda>k v v'. responsesRewritten env v v'" and w = w and w' = w'])
    show "materializePaths env registryJSON [] x w = (Inr x, w)" for x w
      by (simp add: ret_def)
    show "materializePaths env registryJSON (k # ks) x w =
          bnd (materializePath env registryJSON x k) (materializePaths env registryJSON ks) w"
      for k ks x w by simp
    show "\<exists>v'. x' = JObj kd (replace_value k v' cur) \<and> responsesRewritten env v v'"
      if "materializePath env registryJSON (JObj kd cur) k w = (Inr x', w')"
        and "map_of cur k = Some v" and "distinctKeys v" for cur k v w x' w'
      using materializePath_step [OF that] .
    show "distinct (map fst ps)" by (rule assms(2))
    show "\<forall>pk \<in> set (map fst ps). \<exists>v. map_of ps pk = Some v \<and> distinctKeys v" by (rule pre)
    show "materializePaths env registryJSON (map fst ps) (JObj kd ps) w = (Inr schemaPaths', w')"
      by (rule loop)
  qed
  then obtain cur' where sp': "schemaPaths' = JObj kd cur'"
    and each: "\<forall>pk \<in> set (map fst ps). \<forall>v. map_of ps pk = Some v \<longrightarrow>
                  (\<exists>v'. map_of cur' pk = Some v' \<and> responsesRewritten env v v')"
    by blast
  have "requestPathKey \<in> set (map fst ps)"
    using assms(4) by (metis domI dom_map_of_conv_image_fst set_map)
  with each assms(4) obtain requestPath' where
    rp': "map_of cur' requestPathKey = Some requestPath'"
    and rw: "responsesRewritten env (JObj k mps) requestPath'"
    by blast
  from rw assms(5) have
    "bindE (js_get requestPath' method) (\<lambda>requestData'. js_get requestData' ''responses'')
       = Inr (JStr (path_relative env (apiPath env) (operationDirectory env requestData)))"
    unfolding responsesRewritten_def by blast
  with rp' show ?thesis by (simp add: sp')
qed

theorem responses_attribute_after_materialize_witness:
  "bindE (bindE (bindE (fst (materialize (sample_env []) sample_registry sample_paths fresh))
             (\<lambda>schemaPaths'. js_get schemaPaths' ''/items''))
          (\<lambda>requestPath'. js_get requestPath' ''get''))
     (\<lambda>requestData'. js_get requestData' ''responses'')
   = Inr (JStr ''responses/listItems'')"
proof -
  let ?run = "materialize (sample_env []) sample_registry sample_paths fresh"
  let ?op = "sample_operation ''listItems''
         (JObj Plain [(''200'', sample_response
            (JObj Plain [(''application/json'', JObj Plain [(''ok'', JBool True)])]))])"
  have "\<exists>schemaPaths'. fst ?run = Inr schemaPaths'"
    by (simp add: grab_eval io_eval sample_eval status_eval)
  then obtain schemaPaths' where ok: "fst ?run = Inr schemaPaths'" by blast
  then have run: "materialize (sample_env []) sample_registry
       (JObj Plain [(''/items'', JObj Plain [(''get'', ?op)])]) fresh
       = (Inr schemaPaths', snd ?run)"
    unfolding sample_paths_def by (metis prod.collapse)
  have "bindE (bindE (js_get schemaPaths' ''/items'')
                  (\<lambda>requestPath'. js_get requestPath' ''get''))
           (\<lambda>requestData'. js_get requestData' ''responses'')
         = Inr (JStr (path_relative (sample_env []) (apiPath (sample_env []))
                  (operationDirectory (sample_env []) ?op)))"
  proof (rule responses_attribute_after_materialize [OF run])
    show "distinct (map fst [(''/items'', JObj Plain [(''get'', ?op)])])" by simp
    show "\<forall>entry \<in> set [(''/items'', JObj Plain [(''get'', ?op)])]. distinctKeys (snd entry)"
      by (simp add: distinctKeys_def)
    show "map_of [(''/items'', JObj Plain [(''get'', ?op)])] ''/items''
            = Some (JObj Plain [(''get'', ?op)])" by simp
    show "map_of [(''get'', ?op)] ''get'' = Some ?op" by simp
  qed
  then show ?thesis
    unfolding ok
    by (simp add: operationDirectory_def responsesPath_def js_ToString_def sample_eval)
qed

text \<open>
  The claim as stated fails on every operation: the attribute is the path of the
  operation's directory, not of the directory \<^verbatim>\<open>default\<close> inside it.
\<close>

theorem responses_attribute_counterexample:
  "bindE (bindE (bindE (fst (materialize (sample_env []) sample_registry sample_paths fresh))
             (\<lambda>schemaPaths'. js_get schemaPaths' ''/items''))
          (\<lambda>requestPath'. js_get requestPath' ''get''))
     (\<lambda>requestData'. js_get requestData' ''responses'')
   = Inr (JStr ''responses/listItems'')
   \<and> path_relative (sample_env []) (apiPath (sample_env []))
       (path_join (sample_env [])
          (path_join (sample_env []) (responsesPath (sample_env [])) ''listItems'') ''default'')
     = ''responses/listItems/default''"
  by (simp add: grab_eval io_eval sample_eval status_eval)

section \<open>The whole run\<close>

subsection \<open>No file is ever removed\<close>

lemma keepsFiles_bnd:
  assumes "keepsFiles m" and "\<And>x. keepsFiles (f x)"
  shows "keepsFiles (bnd m f)"
  unfolding keepsFiles_def
proof (intro allI impI)
  fix w :: world and p assume p: "files w p \<noteq> None"
  obtain r w1 where m: "m w = (r, w1)" by (cases "m w")
  have "files (snd (m w)) p \<noteq> None"
    using assms(1) p unfolding keepsFiles_def by blast
  with m have p1: "files w1 p \<noteq> None" by simp
  show "files (snd (bnd m f w)) p \<noteq> None"
  proof (cases r)
    case (Inl e)
    with m p1 show ?thesis by (simp add: bnd_def)
  next
    case (Inr x)
    with m have "bnd m f w = f x w1" by (simp add: bnd_def)
    moreover have "files (snd (f x w1)) p \<noteq> None"
      using assms(2) [of x] p1 unfolding keepsFiles_def by blast
    ultimately show ?thesis by simp
  qed
qed

lemma keepsFiles_basic:
  "keepsFiles (lift r)" "keepsFiles (ret x)" "keepsFiles (throw e)"
  "keepsFiles (ensureDir env p)" "keepsFiles (outputJSON env p v)"
  "keepsFiles (makeRequest env url)" "keepsFiles (fetchSample env method u)"
  "keepsFiles (parseBody env body)"
  by (auto simp: keepsFiles_def lift_def ret_def throw_def ensureDir_def outputJSON_def
      makeRequest_def fetchSample_def parseBody_def Let_def
      split: transport.splits option.splits sum.splits prod.splits)

lemma keepsFiles_if: "keepsFiles m \<Longrightarrow> keepsFiles n \<Longrightarrow> keepsFiles (if c then m else n)"
  by simp

lemma keepsFiles_mergeEntry: "keepsFiles (mergeEntry env endpointMap operationsIds schemaPaths k)"
  unfolding mergeEntry_def by (intro keepsFiles_bnd keepsFiles_if keepsFiles_basic)

lemma keepsFiles_mergeEntries: "keepsFiles (mergeEntries env endpointMap operationsIds ks schemaPaths)"
  by (induction ks arbitrary: schemaPaths) (auto intro!: keepsFiles_bnd keepsFiles_basic keepsFiles_mergeEntry)

lemma keepsFiles_merge: "keepsFiles (merge env schemaPaths endpointMap)"
  unfolding merge_def by (intro keepsFiles_bnd keepsFiles_basic keepsFiles_mergeEntries)

lemma keepsFiles_writeData:
  "keepsFiles (writeData env registryJSON requestId dataPath contentType responseData)"
  unfolding writeData_def Let_def
  by (auto intro!: keepsFiles_bnd keepsFiles_basic split: option.splits)

lemma keepsFiles_materializeStatus:
  "keepsFiles (materializeStatus env registryJSON requestData method requestId
     responseMethodPath responses statusCode)"
  unfolding materializeStatus_def Let_def
  by (auto intro!: keepsFiles_bnd keepsFiles_basic keepsFiles_writeData simp: split_beta)

lemma keepsFiles_materializeStatuses:
  "keepsFiles (materializeStatuses env registryJSON requestData method requestId
     responseMethodPath responses statusCodes)"
  by (induction statusCodes)
    (auto intro!: keepsFiles_bnd keepsFiles_basic keepsFiles_materializeStatus)

lemma keepsFiles_materializeMethod:
  "keepsFiles (materializeMethod env registryJSON requestPath method)"
  unfolding materializeMethod_def Let_def
  by (intro keepsFiles_bnd keepsFiles_basic keepsFiles_materializeStatuses)

lemma keepsFiles_materializeMethods:
  "keepsFiles (materializeMethods env registryJSON methods requestPath)"
  by (induction methods arbitrary: requestPath)
    (auto intro!: keepsFiles_bnd keepsFiles_basic keepsFiles_materializeMethod)

lemma keepsFiles_materializePath:
  "keepsFiles (materializePath env registryJSON schemaPaths requestPathKey)"
  unfolding materializePath_def
  by (intro keepsFiles_bnd keepsFiles_basic keepsFiles_materializeMethods)

lemma keepsFiles_materializePaths:
  "keepsFiles (materializePaths env registryJSON keys schemaPaths)"
  by (induction keys arbitrary: schemaPaths)
    (auto intro!: keepsFiles_bnd keepsFiles_basic keepsFiles_materializePath)

lemma keepsFiles_materialize: "keepsFiles (materialize env registryJSON schemaPaths)"
  unfolding materialize_def by (intro keepsFiles_bnd keepsFiles_basic keepsFiles_materializePaths)

lemma keepsFiles_extractDefinitions: "keepsFiles (extractDefinitions env definitions names)"
  by (induction names) (auto intro!: keepsFiles_bnd keepsFiles_basic)

lemma keepsFiles_grab: "keepsFiles (grab env)"
  unfolding grab_def
  by (auto intro!: keepsFiles_bnd keepsFiles_basic keepsFiles_merge keepsFiles_materialize
      keepsFiles_extractDefinitions simp: split_beta)

lemma grab_keeps_files: "files w p \<noteq> None \<Longrightarrow> files (snd (grab env w)) p \<noteq> None"
  using keepsFiles_grab [of env] by (simp add: keepsFiles_def)

subsection \<open>A schema without definitions\<close>

lemma normalizeBasePath_other:
  assumes "normalizeBasePath env schemaJSON = Inr schemaJSON'" and "k \<noteq> ''basePath''"
  shows "js_get schemaJSON' k = js_get schemaJSON k"
proof (cases schemaJSON)
  case (JObj kd ps)
  with assms show ?thesis
    by (auto simp: normalizeBasePath_def bindE_def map_of_obj_put split: sum.splits if_splits)
qed (use assms in \<open>auto simp: normalizeBasePath_def bindE_def split: sum.splits if_splits\<close>)

lemma grab_success_definitions:
  assumes "grab env w = (Inr u, w')"
    and "fst (makeRequest env (schemaURL env) w) = Inr (schemaResponse, schemaBody)"
    and "JSON_parse env schemaBody = Some schemaJSON"
  shows "\<exists>names. bindE (js_get schemaJSON ''definitions'') js_keys = Inr names"
proof -
  from assms(1) obtain x1 w1 w2 schemaJSON0 schemaJSON' definitions names where
    mr: "makeRequest env (schemaURL env) w = (Inr x1, w1)"
    and parse: "parseBody env (snd x1) w2 = (Inr schemaJSON0, w2)"
    and n: "normalizeBasePath env schemaJSON0 = Inr schemaJSON'"
    and d: "js_get schemaJSON' ''definitions'' = Inr definitions"
    and k: "js_keys definitions = Inr names"
    apply (simp add: grab_def bnd_Inr_iff lift_Inr_iff split_beta)
    apply (elim exE conjE)
    apply (auto simp: parseBody_def ret_def throw_def split: option.splits)
    done
  from mr assms(2) have "snd x1 = schemaBody" by simp
  with parse assms(3) have same: "schemaJSON0 = schemaJSON"
    by (auto simp: parseBody_def ret_def)
  from normalizeBasePath_other [OF n, of "''definitions''"] d same
  have "js_get schemaJSON ''definitions'' = Inr definitions" by simp
  with k show ?thesis by auto
qed

text \<open>
  C10. When the request for the schema resolves and its body parses to a document with
  no \<^verbatim>\<open>definitions\<close> attribute, \<^verbatim>\<open>grab\<close> rejects and the callback of the exported function
  receives the error: if no earlier stage failed, \<^verbatim>\<open>Object.keys(schemaJSON.definitions)\<close>
  of line 189 throws after the fixtures were written.
\<close>

theorem grab_requires_definitions:
  assumes "fst (makeRequest env (schemaURL env) w) = Inr (schemaResponse, schemaBody)"
    and "JSON_parse env schemaBody = Some schemaJSON"
    and "js_get schemaJSON ''definitions'' = Inr JUndefined"
  shows "\<exists>e. fst (grab env w) = Inl e \<and> fst (run env ''grab'' w) = Some e"
proof (cases "fst (grab env w)")
  case (Inl e)
  then show ?thesis by (auto simp: run_def split: prod.splits sum.splits)
next
  case (Inr u)
  then have "grab env w = (Inr u, snd (grab env w))" by (metis prod.collapse)
  from grab_success_definitions [OF this assms(1,2)] assms(3) show ?thesis by simp
qed

theorem grab_requires_definitions_witness:
  "fst (run (sample_env
      [(''https://occ.test/ccstore/v1/metadata-catalog'', sample_schema_text),
       (''https://occ.test/ccstoreui/v1/registry'', sample_registry_text)]) ''grab'' fresh)
    \<noteq> None
   \<and> files (snd (run (sample_env
      [(''https://occ.test/ccstore/v1/metadata-catalog'', sample_schema_text),
       (''https://occ.test/ccstoreui/v1/registry'', sample_registry_text)]) ''grab'' fresh))
       ''/api/responses/listItems/default/descriptor.json'' \<noteq> None"
proof -
  let ?env = "sample_env
      [(''https://occ.test/ccstore/v1/metadata-catalog'', sample_schema_text),
       (''https://occ.test/ccstoreui/v1/registry'', sample_registry_text)]"
  have fetch: "fst (makeRequest ?env (schemaURL ?env) fresh) = Inr (Response 200 [], sample_schema_text)"
    by (simp add: makeRequest_def schemaURL_def sample_eval)
  have parse: "JSON_parse ?env sample_schema_text = Some sample_schema"
    by (simp add: sample_eval)
  have lacks: "js_get sample_schema ''definitions'' = Inr JUndefined"
    by (simp add: sample_eval)
  from grab_requires_definitions [OF fetch parse lacks]
  have "fst (run ?env ''grab'' fresh) \<noteq> None" by auto
  moreover have "files (snd (run ?env ''grab'' fresh))
       ''/api/responses/listItems/default/descriptor.json'' \<noteq> None"
    by (simp add: grab_eval io_eval sample_eval status_eval)
  ultimately show ?thesis by simp
qed

end
